theory Spec2Isabelle
  imports Complex_Main "HOL-Library.Word"
begin

section \<open>JavaScript strings\<close>

text \<open>
  A JavaScript string is a sequence of UTF-16 code units; \<open>length\<close>, \<open>slice\<close>,
  \<open>indexOf\<close> and the regular expressions of the source (which carry no \<open>u\<close> flag) all
  count and compare code units. The model writes a string as a \<^typ>\<open>string\<close>, one
  \<^typ>\<open>char\<close> per code unit, which covers the code units below 256 (ASCII and Latin-1).
  A call that can throw returns \<open>exn + 'a\<close>, the exception on the left.
\<close>

datatype exn = TypeError | SyntaxError

text \<open>
  \<open>\s\<close> in a regular expression and \<open>String.prototype.trim\<close> use the same set: the
  ECMAScript WhiteSpace and LineTerminator code units. Below 256 these are TAB, LF, VT,
  FF, CR, SP and NBSP.
\<close>

definition is_space :: "char \<Rightarrow> bool" where
  "is_space c = (of_char c \<in> {9, 10, 11, 12, 13, 32, 160 :: nat})"

text \<open>\<open>\d\<close> without the \<open>u\<close> flag: the ten ASCII digits.\<close>

definition is_digit :: "char \<Rightarrow> bool" where
  "is_digit c = (c \<in> set ''0123456789'')"

text \<open>The character classes \<open>[\/\-.]\<close> and \<open>[\/\-]\<close> of \<open>coerceIsoDate\<close>.\<close>

definition is_sep3 :: "char \<Rightarrow> bool" where
  "is_sep3 c = (c \<in> set ''/-.'')"

definition is_sep2 :: "char \<Rightarrow> bool" where
  "is_sep2 c = (c \<in> set ''/-'')"

text \<open>\<open>s.trim()\<close>.\<close>

definition trim :: "string \<Rightarrow> string" where
  "trim s = rev (dropWhile is_space (rev (dropWhile is_space s)))"

text \<open>
  \<open>s.match(re)\<close> for a regular expression without \<open>^\<close>: the matcher \<open>f\<close> is tried at
  index 0, 1, ..., \<open>length s\<close>, and the first index where it succeeds wins.
\<close>

fun search :: "(string \<Rightarrow> 'a option) \<Rightarrow> string \<Rightarrow> 'a option" where
  "search f [] = f []"
| "search f (c # cs) = (case f (c # cs) of Some r \<Rightarrow> Some r | None \<Rightarrow> search f cs)"

section \<open>The date normalizer\<close>

text \<open>\<open>/^\d{4}-\d{2}-\d{2}$/.test(s)\<close>\<close>

fun re_iso :: "string \<Rightarrow> bool" where
  "re_iso [y1, y2, y3, y4, s1, m1, m2, s2, d1, d2] =
     (is_digit y1 \<and> is_digit y2 \<and> is_digit y3 \<and> is_digit y4 \<and> s1 = CHR ''-'' \<and>
      is_digit m1 \<and> is_digit m2 \<and> s2 = CHR ''-'' \<and> is_digit d1 \<and> is_digit d2)"
| "re_iso _ = False"

text \<open>
  \<open>/(\d{2})[\/\-.](\d{2})[\/\-.](\d{4})/\<close> tried at the head of the string; the result
  is the three groups in the order of the pattern.
\<close>

fun re_dmy_at :: "string \<Rightarrow> (string \<times> string \<times> string) option" where
  "re_dmy_at (d1 # d2 # s1 # m1 # m2 # s2 # y1 # y2 # y3 # y4 # rest) =
     (if is_digit d1 \<and> is_digit d2 \<and> is_sep3 s1 \<and> is_digit m1 \<and> is_digit m2 \<and> is_sep3 s2 \<and>
         is_digit y1 \<and> is_digit y2 \<and> is_digit y3 \<and> is_digit y4
      then Some ([d1, d2], [m1, m2], [y1, y2, y3, y4]) else None)"
| "re_dmy_at _ = None"

text \<open>\<open>/(\d{4})[\/\-.](\d{2})[\/\-.](\d{2})/\<close> tried at the head of the string.\<close>

fun re_ymd_at :: "string \<Rightarrow> (string \<times> string \<times> string) option" where
  "re_ymd_at (y1 # y2 # y3 # y4 # s1 # m1 # m2 # s2 # d1 # d2 # rest) =
     (if is_digit y1 \<and> is_digit y2 \<and> is_digit y3 \<and> is_digit y4 \<and> is_sep3 s1 \<and>
         is_digit m1 \<and> is_digit m2 \<and> is_sep3 s2 \<and> is_digit d1 \<and> is_digit d2
      then Some ([y1, y2, y3, y4], [m1, m2], [d1, d2]) else None)"
| "re_ymd_at _ = None"

text \<open>\<open>/^(\d{4})[\/\-](\d{2})$/\<close>\<close>

fun re_ym :: "string \<Rightarrow> (string \<times> string) option" where
  "re_ym [y1, y2, y3, y4, s1, m1, m2] =
     (if is_digit y1 \<and> is_digit y2 \<and> is_digit y3 \<and> is_digit y4 \<and> is_sep2 s1 \<and>
         is_digit m1 \<and> is_digit m2
      then Some ([y1, y2, y3, y4], [m1, m2]) else None)"
| "re_ym _ = None"

definition coerceIsoDate :: "string \<Rightarrow> string" where
  "coerceIsoDate text =
     (let normalized = trim text in
      if re_iso normalized then normalized
      else case search re_dmy_at normalized of
        Some (d, m, y) \<Rightarrow> y @ ''-'' @ m @ ''-'' @ d
      | None \<Rightarrow>
          (case search re_ymd_at normalized of
             Some (y, m, d) \<Rightarrow> y @ ''-'' @ m @ ''-'' @ d
           | None \<Rightarrow>
               (case re_ym normalized of
                  Some (y, m) \<Rightarrow> y @ ''-'' @ m @ ''-01''
                | None \<Rightarrow> normalized)))"

section \<open>Status derivation (client)\<close>

datatype status = Valid | ExpiringSoon | Expired

text \<open>
  \<open>computeStatus\<close> reads the clock (\<open>new Date()\<close>) and parses the string with the
  \<open>Date\<close> constructor; both are built-ins, so the model takes them as parameters:
  \<open>now\<close> is \<open>today.getTime()\<close>, and \<open>Date_parse s\<close> is \<open>new Date(s).getTime()\<close>, with
  \<open>None\<close> for \<open>NaN\<close> (an invalid date). Time values are integral numbers of
  milliseconds. The subtraction and the division are operations on doubles: each returns
  the exact result rounded, and \<open>fl\<close> is that rounding. \<open>Math.ceil\<close> is exact, and
  \<open>-0 < 0\<close> is false, as \<open>0 < 0\<close> is.
\<close>

definition computeStatus :: "(real \<Rightarrow> real) \<Rightarrow> (string \<Rightarrow> int option) \<Rightarrow> int \<Rightarrow> string \<Rightarrow> status" where
  "computeStatus fl Date_parse now dateISO =
     (if trim dateISO = [] then Valid
      else case Date_parse dateISO of
        None \<Rightarrow> Valid
      | Some target \<Rightarrow>
          (let diffDays = \<lceil>fl (fl (of_int target - of_int now) / (1000 * 60 * 60 * 24))\<rceil> in
           if diffDays < 0 then Expired
           else if diffDays \<le> 30 then ExpiringSoon
           else Valid))"

section \<open>JSON values and the conversions the handlers apply to them\<close>

text \<open>
  \<open>JSON.parse\<close> and \<open>req.json()\<close> produce a value of this type. A number is a double:
  a rational or an infinity (\<open>JSON.parse("1e999")\<close>); JSON has no NaN. An object holds
  its members in source order, and a later member overrides an earlier one of the same
  name.
\<close>

datatype jsnum = Finite rat | PosInfinity | NegInfinity

datatype json =
  JNull | JBool bool | JNum jsnum | JStr string | JArr "json list" | JObj "(string \<times> json) list"

definition bind :: "exn + 'a \<Rightarrow> ('a \<Rightarrow> exn + 'b) \<Rightarrow> exn + 'b" where
  "bind m f = (case m of Inl e \<Rightarrow> Inl e | Inr x \<Rightarrow> f x)"

text \<open>
  \<open>v.name\<close> for the property names the handlers read (\<open>mobileConnected\<close>,
  \<open>webConnected\<close>, \<open>command\<close>, \<open>image\<close>, \<open>product\<close>, \<open>expiryDate\<close>, \<open>expiry\<close>,
  \<open>date\<close>): none of them is a property of a prototype, so the access gives the member
  of an object, \<open>undefined\<close> (\<open>None\<close>) on any other value, and throws on \<open>null\<close>.
\<close>

fun getProp :: "json \<Rightarrow> string \<Rightarrow> exn + json option" where
  "getProp JNull name = Inl TypeError"
| "getProp (JObj members) name = Inr (map_of (rev members) name)"
| "getProp v name = Inr None"

text \<open>
  \<open>a ?? b\<close> takes \<open>b\<close> when \<open>a\<close> is \<open>undefined\<close> or \<open>null\<close>: \<open>is_nullish\<close> is that
  test, and \<open>or_default a d\<close> is \<open>a ?? d\<close> for a value \<open>d\<close>.
\<close>

definition is_nullish :: "json option \<Rightarrow> bool" where
  "is_nullish a = (a = None \<or> a = Some JNull)"

definition or_default :: "json option \<Rightarrow> json \<Rightarrow> json" where
  "or_default a d = (case a of None \<Rightarrow> d | Some JNull \<Rightarrow> d | Some v \<Rightarrow> v)"

text \<open>
  \<open>String(v)\<close>. On an object of \<open>JSON.parse\<close> the conversion calls
  \<open>Object.prototype.toString\<close>, unless the object has a member \<open>toString\<close> of its own:
  that member is not callable, \<open>valueOf\<close> gives no primitive, and the conversion throws a
  TypeError. An array is joined with commas, \<open>null\<close> elements as the empty string.
  The conversion of a number (\<open>Number::toString\<close>) is the parameter \<open>nts\<close>.
\<close>

fun jsString :: "(jsnum \<Rightarrow> string) \<Rightarrow> json \<Rightarrow> exn + string"
  and jsJoin :: "(jsnum \<Rightarrow> string) \<Rightarrow> json list \<Rightarrow> exn + string" where
  "jsString nts JNull = Inr ''null''"
| "jsString nts (JBool b) = Inr (if b then ''true'' else ''false'')"
| "jsString nts (JNum n) = Inr (nts n)"
| "jsString nts (JStr s) = Inr s"
| "jsString nts (JArr xs) = jsJoin nts xs"
| "jsString nts (JObj members) =
     (if ''toString'' \<in> fst ` set members then Inl TypeError else Inr ''[object Object]'')"
| "jsJoin nts [] = Inr ''''"
| "jsJoin nts (x # xs) =
     bind (if x = JNull then Inr '''' else jsString nts x) (\<lambda>s.
       if xs = [] then Inr s else bind (jsJoin nts xs) (\<lambda>r. Inr (s @ '','' @ r)))"

text \<open>\<open>if (v)\<close>: the truthiness of a JSON value.\<close>

fun truthy :: "json \<Rightarrow> bool" where
  "truthy JNull = False"
| "truthy (JBool b) = b"
| "truthy (JNum n) = (n \<noteq> Finite 0)"
| "truthy (JStr s) = (s \<noteq> [])"
| "truthy (JArr xs) = True"
| "truthy (JObj members) = True"

text \<open>
  \<open>try { s1; s2; ... } catch { }\<close> on a mutable object: the statements run in order
  until one throws; the assignments made before the throw stay. The result is the
  object and whether a statement threw.
\<close>

fun run_try :: "('s \<Rightarrow> exn + 's) list \<Rightarrow> 's \<Rightarrow> 's \<times> bool" where
  "run_try [] s = (s, False)"
| "run_try (stmt # stmts) s = (case stmt s of Inl e \<Rightarrow> (s, True) | Inr s' \<Rightarrow> run_try stmts s')"

text \<open>The decimal digits of an integral number, as a template literal prints it.\<close>

fun show_nat :: "nat \<Rightarrow> string" where
  "show_nat n = (if n < 10 then [''0123456789'' ! n]
                 else show_nat (n div 10) @ [''0123456789'' ! (n mod 10)])"

declare show_nat.simps [simp del]

definition show_int :: "int \<Rightarrow> string" where
  "show_int i = (if i < 0 then ''-'' @ show_nat (nat (- i)) else show_nat (nat i))"

text \<open>\<open>s.includes(sub)\<close>\<close>

fun str_includes :: "string \<Rightarrow> string \<Rightarrow> bool" where
  "str_includes [] sub = (sub = [])"
| "str_includes (c # cs) sub = (take (length sub) (c # cs) = sub \<or> str_includes cs sub)"

section \<open>The session store and its relay endpoint\<close>

text \<open>
  The fields \<open>product\<close> and \<open>expiryDate\<close> of a \<open>SessionImage\<close> are written
  \<open>image_product\<close> and \<open>image_expiryDate\<close>, and its \<open>id\<close> is \<open>image_id\<close>: the plain
  names are the fields of \<open>AnalyzeResponse\<close> and a constant of HOL.
\<close>

record SessionImage =
  image_id :: string
  dataUrl :: string
  image_product :: string
  image_expiryDate :: string

record SessionState =
  mobileConnected :: bool
  webConnected :: bool
  command :: "string option"
  images :: "SessionImage list"

text \<open>\<open>const sessions = new Map<string, SessionState>()\<close>\<close>

type_synonym sessions = "string \<rightharpoonup> SessionState"

text \<open>
  A \<open>File\<close> of a multipart form: its \<open>type\<close> and its bytes (\<open>size\<close> is their
  number). A form value is a string or a file.
\<close>

record File =
  file_type :: string
  file_bytes :: "8 word list"

datatype form_value = FormString string | FormFile File

text \<open>
  What the handler reads of a request: the \<open>content-type\<close> header (\<open>None\<close> when
  absent), the outcome of \<open>req.formData()\<close> and the outcome of \<open>req.json()\<close>
  (\<open>None\<close> when the call rejects). \<open>form.get(name)\<close> is \<open>None\<close> for \<open>null\<close>.
\<close>

record request =
  content_type :: "string option"
  formData :: "(string \<rightharpoonup> form_value) option"
  json_body :: "json option"

datatype 'a response = Json200 'a | Error400 string | Error500 string string

text \<open>\<open>buffer.toString("base64")\<close> is the parameter \<open>base64\<close>.\<close>

definition bufferToDataUrl :: "(8 word list \<Rightarrow> string) \<Rightarrow> 8 word list \<Rightarrow> string \<Rightarrow> string" where
  "bufferToDataUrl base64 buffer mime =
     ''data:'' @ (if mime = [] then ''image/jpeg'' else mime) @ '';base64,'' @ base64 buffer"

definition default_state :: SessionState where
  "default_state = \<lparr>mobileConnected = False, webConnected = False, command = None, images = []\<rparr>"

text \<open>
  \<open>getOrCreate\<close> returns the object stored in the map; the handlers mutate it in
  place. The model returns the store after the insertion together with the state, and
  a handler writes the mutated state back under the same key.
\<close>

definition getOrCreate :: "sessions \<Rightarrow> string \<Rightarrow> sessions \<times> SessionState" where
  "getOrCreate sessions sessionId =
     (case sessions sessionId of
        None \<Rightarrow> (sessions(sessionId \<mapsto> default_state), default_state)
      | Some state \<Rightarrow> (sessions, state))"

definition GET :: "sessions \<Rightarrow> string \<Rightarrow> sessions \<times> SessionState response" where
  "GET sessions sessionId =
     (if sessionId = [] then (sessions, Error400 ''Missing sessionId'')
      else let (sessions', state) = getOrCreate sessions sessionId
           in (sessions', Json200 state))"

text \<open>
  \<open>state.images.push({id: `mobile-${Date.now()}-${state.images.length}`, dataUrl,
  product: "", expiryDate: ""})\<close>; \<open>now\<close> is the value of \<open>Date.now()\<close>.
\<close>

definition push_image :: "int \<Rightarrow> string \<Rightarrow> SessionState \<Rightarrow> SessionState" where
  "push_image now url state =
     state\<lparr>images := images state @
       [\<lparr>image_id = ''mobile-'' @ show_int now @ ''-'' @ show_nat (length (images state)),
         dataUrl = url, image_product = '''', image_expiryDate = ''''\<rparr>]\<rparr>"

text \<open>The multipart branch of \<open>POST\<close>: the body of its \<open>try\<close>, any throw ignored.\<close>

definition post_multipart ::
  "(8 word list \<Rightarrow> string) \<Rightarrow> int \<Rightarrow> request \<Rightarrow> SessionState \<Rightarrow> SessionState" where
  "post_multipart base64 now req state =
     (case formData req of
        None \<Rightarrow> state
      | Some form \<Rightarrow>
          (case form ''image'' of
             Some (FormFile file) \<Rightarrow>
               if length (file_bytes file) > 0
               then let buffer = file_bytes file;
                        mime = (if file_type file = [] then ''image/jpeg'' else file_type file)
                    in push_image now (bufferToDataUrl base64 buffer mime) state
               else state
           | _ \<Rightarrow> state))"

text \<open>The four statements of the JSON branch, each an assignment that may throw.\<close>

definition set_mobileConnected :: "json \<Rightarrow> SessionState \<Rightarrow> exn + SessionState" where
  "set_mobileConnected body state =
     bind (getProp body ''mobileConnected'') (\<lambda>v.
       case v of Some (JBool b) \<Rightarrow> Inr (state\<lparr>mobileConnected := b\<rparr>) | _ \<Rightarrow> Inr state)"

definition set_webConnected :: "json \<Rightarrow> SessionState \<Rightarrow> exn + SessionState" where
  "set_webConnected body state =
     bind (getProp body ''webConnected'') (\<lambda>v.
       case v of Some (JBool b) \<Rightarrow> Inr (state\<lparr>webConnected := b\<rparr>) | _ \<Rightarrow> Inr state)"

definition set_command :: "(jsnum \<Rightarrow> string) \<Rightarrow> json \<Rightarrow> SessionState \<Rightarrow> exn + SessionState" where
  "set_command nts body state =
     bind (getProp body ''command'') (\<lambda>v.
       case v of
         None \<Rightarrow> Inr state
       | Some JNull \<Rightarrow> Inr (state\<lparr>command := None\<rparr>)
       | Some c \<Rightarrow> bind (jsString nts c) (\<lambda>s. Inr (state\<lparr>command := Some s\<rparr>)))"

definition add_image :: "int \<Rightarrow> json \<Rightarrow> SessionState \<Rightarrow> exn + SessionState" where
  "add_image now body state =
     bind (getProp body ''image'') (\<lambda>v.
       case v of
         Some (JStr s) \<Rightarrow> if length s > 0 then Inr (push_image now s state) else Inr state
       | _ \<Rightarrow> Inr state)"

definition post_json :: "(jsnum \<Rightarrow> string) \<Rightarrow> int \<Rightarrow> request \<Rightarrow> SessionState \<Rightarrow> SessionState" where
  "post_json nts now req state =
     (case json_body req of
        None \<Rightarrow> state
      | Some body \<Rightarrow>
          fst (run_try [set_mobileConnected body, set_webConnected body,
                        set_command nts body, add_image now body] state))"

definition POST ::
  "(8 word list \<Rightarrow> string) \<Rightarrow> (jsnum \<Rightarrow> string) \<Rightarrow> int \<Rightarrow>
   sessions \<Rightarrow> string \<Rightarrow> request \<Rightarrow> sessions \<times> SessionState response" where
  "POST base64 nts now sessions sessionId req =
     (if sessionId = [] then (sessions, Error400 ''Missing sessionId'')
      else let (sessions', state) = getOrCreate sessions sessionId;
               contentType = (case content_type req of None \<Rightarrow> '''' | Some c \<Rightarrow> c);
               state' = (if str_includes contentType ''multipart/form-data''
                         then post_multipart base64 now req state
                         else post_json nts now req state)
           in (sessions'(sessionId \<mapsto> state'), Json200 state'))"

section \<open>The extraction client\<close>

record AnalyzeResponse =
  product :: string
  expiryDate :: string

definition dquote :: char where
  "dquote = CHR 0x22"

definition backslash :: char where
  "backslash = CHR 0x5C"

text \<open>\<open>.\<close> in a regular expression matches any code unit but a line terminator.\<close>

definition is_line_terminator :: "char \<Rightarrow> bool" where
  "is_line_terminator c = (of_char c \<in> {10, 13 :: nat})"

text \<open>\<open>s.indexOf(c)\<close> and \<open>s.lastIndexOf(c)\<close> for a one-character \<open>c\<close>; \<open>None\<close> is \<open>-1\<close>.\<close>

fun indexOf :: "string \<Rightarrow> char \<Rightarrow> nat option" where
  "indexOf [] c = None"
| "indexOf (x # xs) c = (if x = c then Some 0 else map_option Suc (indexOf xs c))"

definition lastIndexOf :: "string \<Rightarrow> char \<Rightarrow> nat option" where
  "lastIndexOf s c = map_option (\<lambda>k. length s - 1 - k) (indexOf (rev s) c)"

text \<open>\<open>s.slice(a, b)\<close> for \<open>0 \<le> a\<close> and \<open>0 \<le> b\<close>: empty when \<open>b \<le> a\<close>.\<close>

definition slice :: "string \<Rightarrow> nat \<Rightarrow> nat \<Rightarrow> string" where
  "slice s a b = take (b - a) (drop a s)"

text \<open>
  \<open>const raw = jsonStart >= 0 && jsonEnd >= 0 ? rawText.slice(jsonStart, jsonEnd + 1)
  : rawText\<close>
\<close>

definition json_slice :: "string \<Rightarrow> string" where
  "json_slice rawText =
     (case (indexOf rawText (CHR ''{''), lastIndexOf rawText (CHR ''}'')) of
        (Some jsonStart, Some jsonEnd) \<Rightarrow> slice rawText jsonStart (jsonEnd + 1)
      | _ \<Rightarrow> rawText)"

text \<open>
  The tail \<open>((?:[^"\\]|\\.)*)"\<close> of the two fallback patterns, tried at the head of the
  string: the captured group when it matches. The loop takes one code unit that is
  neither a quote nor a backslash, or a backslash and the code unit after it (not a line
  terminator), as long as it can; then a quote must follow. Giving back the last round
  of the loop never helps, since that round starts on a code unit that is not a quote,
  so the greedy run decides the match.
\<close>

fun re_string_tail :: "string \<Rightarrow> string option" where
  "re_string_tail [] = None"
| "re_string_tail [c] = (if c = dquote then Some [] else None)"
| "re_string_tail (c # d # ds) =
     (if c = dquote then Some []
      else if c = backslash
      then (if is_line_terminator d then None
            else map_option (\<lambda>r. c # d # r) (re_string_tail ds))
      else map_option (\<lambda>r. c # r) (re_string_tail (d # ds)))"

text \<open>
  \<open>/"name"\s*:\s*"((?:[^"\\]|\\.)*)"/\<close> tried at the head of the string. \<open>\s*\<close> takes
  all the white space there is: the colon and the quote after it are no white space.
\<close>

definition re_field_at :: "string \<Rightarrow> string \<Rightarrow> string option" where
  "re_field_at name s =
     (let key = [dquote] @ name @ [dquote] in
      if take (length key) s = key
      then (case dropWhile is_space (drop (length key) s) of
              c # r \<Rightarrow>
                if c = CHR '':''
                then (case dropWhile is_space r of
                        q # body \<Rightarrow> if q = dquote then re_string_tail body else None
                      | [] \<Rightarrow> None)
                else None
            | [] \<Rightarrow> None)
      else None)"

text \<open>\<open>s.replace(/\\"/g, '"')\<close>\<close>

fun unescape_quotes :: "string \<Rightarrow> string" where
  "unescape_quotes (c # d # ds) =
     (if c = backslash \<and> d = dquote then dquote # unescape_quotes ds
      else c # unescape_quotes (d # ds))"
| "unescape_quotes s = s"

text \<open>\<open>/^product_\d+$/.test(s)\<close>\<close>

definition re_placeholder :: "string \<Rightarrow> bool" where
  "re_placeholder s =
     (take 8 s = ''product_'' \<and> drop 8 s \<noteq> [] \<and> list_all is_digit (drop 8 s))"

text \<open>
  The statements of the \<open>try\<close> after \<open>JSON.parse\<close>:
  \<open>extracted.product = String(parsed.product ?? "").trim().slice(0, 120)\<close>, and
  \<open>const rawExpiry = parsed.expiryDate ?? parsed.expiry ?? parsed.date ?? "";
  if (rawExpiry) extracted.expiryDate = coerceIsoDate(String(rawExpiry))\<close>.
\<close>

definition set_product :: "(jsnum \<Rightarrow> string) \<Rightarrow> json \<Rightarrow> AnalyzeResponse \<Rightarrow> exn + AnalyzeResponse" where
  "set_product nts parsed extracted =
     bind (getProp parsed ''product'') (\<lambda>p.
       bind (jsString nts (or_default p (JStr ''''))) (\<lambda>s.
         Inr (extracted\<lparr>product := slice (trim s) 0 120\<rparr>)))"

definition set_expiryDate :: "(jsnum \<Rightarrow> string) \<Rightarrow> json \<Rightarrow> AnalyzeResponse \<Rightarrow> exn + AnalyzeResponse" where
  "set_expiryDate nts parsed extracted =
     bind (getProp parsed ''expiryDate'') (\<lambda>e1.
       bind (if is_nullish e1 then getProp parsed ''expiry'' else Inr e1) (\<lambda>e2.
         bind (if is_nullish e2 then getProp parsed ''date'' else Inr e2) (\<lambda>e3.
           let rawExpiry = or_default e3 (JStr '''') in
           if truthy rawExpiry
           then bind (jsString nts rawExpiry) (\<lambda>s.
                  Inr (extracted\<lparr>expiryDate := coerceIsoDate s\<rparr>))
           else Inr extracted)))"

text \<open>
  The body of the \<open>try\<close>: \<open>JSON.parse(raw)\<close> and the two statements after it.
  \<open>JSON_parse\<close> is the built-in, \<open>None\<close> where it throws. The result is \<open>extracted\<close> as
  the body leaves it, and whether the body threw.
\<close>

definition try_json ::
  "(string \<Rightarrow> json option) \<Rightarrow> (jsnum \<Rightarrow> string) \<Rightarrow> string \<Rightarrow> AnalyzeResponse \<Rightarrow>
   AnalyzeResponse \<times> bool" where
  "try_json JSON_parse nts raw extracted =
     (case JSON_parse raw of
        None \<Rightarrow> (extracted, True)
      | Some parsed \<Rightarrow> run_try [set_product nts parsed, set_expiryDate nts parsed] extracted)"

text \<open>The body of the \<open>catch\<close>: the two fallback patterns, matched on the whole reply.\<close>

definition catch_regex :: "string \<Rightarrow> AnalyzeResponse \<Rightarrow> AnalyzeResponse" where
  "catch_regex rawText extracted =
     (let extracted = (case search (re_field_at ''product'') rawText of
                         Some p \<Rightarrow> extracted\<lparr>product := unescape_quotes p\<rparr>
                       | None \<Rightarrow> extracted)
      in case search (re_field_at ''expiryDate'') rawText of
           Some e \<Rightarrow> extracted\<lparr>expiryDate := coerceIsoDate (unescape_quotes e)\<rparr>
         | None \<Rightarrow> extracted)"

text \<open>The reply parser: from \<open>let extracted\<close> to the end of the \<open>catch\<close>.\<close>

definition parse_reply ::
  "(string \<Rightarrow> json option) \<Rightarrow> (jsnum \<Rightarrow> string) \<Rightarrow> string \<Rightarrow> AnalyzeResponse" where
  "parse_reply JSON_parse nts rawText =
     (let extracted = \<lparr>product = '''', expiryDate = ''''\<rparr>;
          raw = json_slice rawText;
          (extracted, thrown) = try_json JSON_parse nts raw extracted
      in if thrown then catch_regex rawText extracted else extracted)"

text \<open>The manual overrides; \<open>manualProduct\<close> and \<open>manualDate\<close> are \<open>form.get(...)\<close>.\<close>

definition apply_manual ::
  "form_value option \<Rightarrow> form_value option \<Rightarrow> AnalyzeResponse \<Rightarrow> AnalyzeResponse" where
  "apply_manual manualProduct manualDate extracted =
     (let manual = (case manualProduct of Some (FormString s) \<Rightarrow> trim s | _ \<Rightarrow> '''');
          extracted = (if manual \<noteq> [] \<and> \<not> re_placeholder manual
                       then extracted\<lparr>product := slice manual 0 120\<rparr> else extracted)
      in case manualDate of
           Some (FormString s) \<Rightarrow>
             if trim s \<noteq> [] then extracted\<lparr>expiryDate := coerceIsoDate s\<rparr> else extracted
         | _ \<Rightarrow> extracted)"

text \<open>
  The call of the external model: it throws (with a message), or it returns a response
  whose \<open>text()\<close> gives the reply or throws.
\<close>

datatype generation = GenerationFails string | ReplyText string | ReplyTextFails

text \<open>
  The handler \<open>POST\<close> of \<open>/api/analyze\<close>. \<open>apiKey\<close> is \<open>process.env.GEMINI_API_KEY\<close>;
  \<open>generateContent\<close> stands for the request to the model with the prompt and the image.
  A rejected \<open>req.formData()\<close> is caught by the outer \<open>catch\<close>; its message is not
  modelled.
\<close>

definition POST_analyze ::
  "(string \<Rightarrow> json option) \<Rightarrow> (jsnum \<Rightarrow> string) \<Rightarrow> string option \<Rightarrow> (File \<Rightarrow> generation) \<Rightarrow>
   request \<Rightarrow> AnalyzeResponse response" where
  "POST_analyze JSON_parse nts apiKey generateContent req =
     (case formData req of
        None \<Rightarrow> Error500 ''analysis_failed'' ''''
      | Some form \<Rightarrow>
          (case form ''image'' of
             Some (FormFile file) \<Rightarrow>
               if apiKey = None \<or> apiKey = Some [] then Error500 ''GEMINI_API_KEY not configured'' ''''
               else (case generateContent file of
                       GenerationFails message \<Rightarrow> Error500 ''analysis_failed'' message
                     | ReplyText rawText \<Rightarrow>
                         Json200 (apply_manual (form ''manualProduct'') (form ''manualDate'')
                                    (parse_reply JSON_parse nts rawText))
                     | ReplyTextFails \<Rightarrow>
                         Json200 (apply_manual (form ''manualProduct'') (form ''manualDate'')
                                    (parse_reply JSON_parse nts '''')))
           | _ \<Rightarrow> Error400 ''image required''))"

section \<open>The forms the specification names\<close>

text \<open>
  The date forms of the specification, read on a whole string: \<open>YYYY-MM-DD\<close>,
  \<open>DD[./-]MM[./-]YYYY\<close>, \<open>YYYY[./-]MM[./-]DD\<close> and \<open>YYYY[/-]MM\<close>, and the two
  reorderings to \<open>YYYY-MM-DD\<close>.
\<close>

definition form_iso :: "string \<Rightarrow> bool" where
  "form_iso t = (length t = 10 \<and> list_all is_digit (take 4 t) \<and> t ! 4 = CHR ''-'' \<and>
     list_all is_digit (take 2 (drop 5 t)) \<and> t ! 7 = CHR ''-'' \<and> list_all is_digit (drop 8 t))"

definition form_dmy :: "string \<Rightarrow> bool" where
  "form_dmy t = (length t = 10 \<and> list_all is_digit (take 2 t) \<and> is_sep3 (t ! 2) \<and>
     list_all is_digit (take 2 (drop 3 t)) \<and> is_sep3 (t ! 5) \<and> list_all is_digit (drop 6 t))"

definition form_ymd :: "string \<Rightarrow> bool" where
  "form_ymd t = (length t = 10 \<and> list_all is_digit (take 4 t) \<and> is_sep3 (t ! 4) \<and>
     list_all is_digit (take 2 (drop 5 t)) \<and> is_sep3 (t ! 7) \<and> list_all is_digit (drop 8 t))"

definition form_ym :: "string \<Rightarrow> bool" where
  "form_ym t = (length t = 7 \<and> list_all is_digit (take 4 t) \<and> is_sep2 (t ! 4) \<and>
     list_all is_digit (drop 5 t))"

definition dmy_to_iso :: "string \<Rightarrow> string" where
  "dmy_to_iso w = drop 6 w @ ''-'' @ take 2 (drop 3 w) @ ''-'' @ take 2 w"

definition ymd_to_iso :: "string \<Rightarrow> string" where
  "ymd_to_iso w = take 4 w @ ''-'' @ take 2 (drop 5 w) @ ''-'' @ drop 8 w"

text \<open>
  A window of a string is one of its substrings of ten code units. \<open>absent P t\<close>: no
  window of \<open>t\<close> has the form \<open>P\<close>; \<open>leftmost P t i\<close>: the window at index \<open>i\<close> is the
  first one of the form \<open>P\<close>.
\<close>

definition absent :: "(string \<Rightarrow> bool) \<Rightarrow> string \<Rightarrow> bool" where
  "absent P t = list_all (\<lambda>i. \<not> P (take 10 (drop i t))) [0..<Suc (length t) - 10]"

definition leftmost :: "(string \<Rightarrow> bool) \<Rightarrow> string \<Rightarrow> nat \<Rightarrow> bool" where
  "leftmost P t i = (i + 10 \<le> length t \<and> P (take 10 (drop i t)) \<and>
     list_all (\<lambda>j. \<not> P (take 10 (drop j t))) [0..<i])"

text \<open>
  The doubles: \<open>m * 2^e\<close> for an integer \<open>m\<close> below \<open>2^53\<close> in absolute value and an
  exponent \<open>e\<close> from \<open>-1074\<close> to \<open>971\<close>. \<open>rounds fl\<close> says what the model needs of the
  rounding of IEEE 754 arithmetic, and what holds of it in every rounding mode: it is
  monotone, and it leaves a double unchanged.
\<close>

definition is_double :: "real \<Rightarrow> bool" where
  "is_double x = (\<exists>(m::int) (k::nat). \<bar>m\<bar> < 2 ^ 53 \<and>
     (x = of_int m * 2 ^ k \<and> k \<le> 971 \<or> x = of_int m / 2 ^ k \<and> k \<le> 1074))"

definition rounds :: "(real \<Rightarrow> real) \<Rightarrow> bool" where
  "rounds fl = (mono fl \<and> (\<forall>x. is_double x \<longrightarrow> fl x = x))"

text \<open>The number of days from \<open>now\<close> to \<open>target\<close>, both in milliseconds, rounded up.\<close>

definition days_until :: "int \<Rightarrow> int \<Rightarrow> int" where
  "days_until now target = \<lceil>(of_int target - of_int now) / (86400000 :: real)\<rceil>"


text \<open>
  The state of a session as the next \<open>GET\<close> shows it: the stored state, or the default
  state for a key the store does not hold yet.
\<close>

definition session_of :: "sessions \<Rightarrow> string \<Rightarrow> SessionState" where
  "session_of sessions sessionId =
     (case sessions sessionId of None \<Rightarrow> default_state | Some state \<Rightarrow> state)"

text \<open>Whether the handler takes a request for a multipart one.\<close>

definition is_multipart :: "request \<Rightarrow> bool" where
  "is_multipart req =
     str_includes (case content_type req of None \<Rightarrow> '''' | Some c \<Rightarrow> c) ''multipart/form-data''"

text \<open>The file a multipart request carries in its field \<open>image\<close>, when it has bytes.\<close>

definition image_file :: "request \<Rightarrow> File option" where
  "image_file req =
     (case formData req of
        None \<Rightarrow> None
      | Some form \<Rightarrow>
          (case form ''image'' of
             Some (FormFile file) \<Rightarrow> if file_bytes file = [] then None else Some file
           | _ \<Rightarrow> None))"

text \<open>
  Requests and a store for the examples: a multipart upload of a three-byte PNG, one of
  a one-byte text file, a multipart request without a file, and a store whose session
  \<open>abc\<close> has both flags set and a pending command. In the examples \<open>base64\<close> is a
  function that knows the encodings of these two files, and \<open>Number::toString\<close> is not
  called.
\<close>

definition png_upload :: request where
  "png_upload =
     \<lparr>content_type = Some ''multipart/form-data; boundary=x'',
      formData = Some [''image'' \<mapsto> FormFile \<lparr>file_type = ''image/png'', file_bytes = [1, 2, 3]\<rparr>],
      json_body = None\<rparr>"

definition text_upload :: request where
  "text_upload =
     \<lparr>content_type = Some ''multipart/form-data; boundary=x'',
      formData = Some [''image'' \<mapsto> FormFile \<lparr>file_type = ''text/plain'', file_bytes = [65]\<rparr>],
      json_body = None\<rparr>"

definition empty_upload :: request where
  "empty_upload =
     \<lparr>content_type = Some ''multipart/form-data; boundary=x'',
      formData = Some Map.empty, json_body = None\<rparr>"

definition base64_example :: "8 word list \<Rightarrow> string" where
  "base64_example bytes = (if bytes = [1, 2, 3] then ''AQID'' else ''QQ=='')"

definition nts_example :: "jsnum \<Rightarrow> string" where
  "nts_example n = ''0''"

definition paired :: sessions where
  "paired = [''abc'' \<mapsto> \<lparr>mobileConnected = True, webConnected = True,
                         command = Some ''open_camera'', images = []\<rparr>]"

text \<open>
  JSON requests for the examples: \<open>{"mobileConnected": false, "command": null, "image":
  "data:image/png;base64,AQID"}\<close>, \<open>{"webConnected": false}\<close>, \<open>{"command": "close"}\<close>,
  a body that is no JSON, and \<open>{"command": {"toString": null}, "image":
  "data:image/png;base64,AQID"}\<close>.
\<close>

definition json_request :: "json option \<Rightarrow> request" where
  "json_request body =
     \<lparr>content_type = Some ''application/json'', formData = None, json_body = body\<rparr>"

definition relay_body :: json where
  "relay_body = JObj [(''mobileConnected'', JBool False), (''command'', JNull),
                      (''image'', JStr ''data:image/png;base64,AQID'')]"

definition web_off_body :: json where
  "web_off_body = JObj [(''webConnected'', JBool False)]"

definition close_body :: json where
  "close_body = JObj [(''command'', JStr ''close'')]"

definition odd_command_body :: json where
  "odd_command_body = JObj [(''command'', JObj [(''toString'', JNull)]),
                            (''image'', JStr ''data:image/png;base64,AQID'')]"

text \<open>
  The member \<open>name\<close> of a JSON body: \<open>None\<close> when the body is no object or has no such
  member. \<open>command_converts\<close>: the body has no member \<open>command\<close>, or it is \<open>null\<close>, or
  \<open>String\<close> converts it without throwing (as it does every string, number and boolean).
\<close>

definition field :: "json \<Rightarrow> string \<Rightarrow> json option" where
  "field body name = (case body of JObj members \<Rightarrow> map_of (rev members) name | _ \<Rightarrow> None)"

definition command_converts :: "(jsnum \<Rightarrow> string) \<Rightarrow> json \<Rightarrow> bool" where
  "command_converts nts body =
     (case field body ''command'' of
        None \<Rightarrow> True
      | Some JNull \<Rightarrow> True
      | Some c \<Rightarrow> (case jsString nts c of Inl e \<Rightarrow> False | Inr s \<Rightarrow> True))"

text \<open>The image a JSON body with a non-empty string \<open>image\<close> adds to a state.\<close>

definition relayed_image :: "int \<Rightarrow> string \<Rightarrow> SessionState \<Rightarrow> SessionImage" where
  "relayed_image now url state =
     \<lparr>image_id = ''mobile-'' @ show_int now @ ''-'' @ show_nat (length (images state)),
      dataUrl = url, image_product = [], image_expiryDate = []\<rparr>"

text \<open>
  The value of a flag after a JSON body: the member, when it is a boolean, and the old
  value otherwise. The command after a JSON body whose command converts: unchanged
  without the member, absent for \<open>null\<close>, and the converted member otherwise.
\<close>

definition flag_after :: "json \<Rightarrow> string \<Rightarrow> bool \<Rightarrow> bool" where
  "flag_after body name old = (case field body name of Some (JBool b) \<Rightarrow> b | _ \<Rightarrow> old)"

definition command_after :: "(jsnum \<Rightarrow> string) \<Rightarrow> json \<Rightarrow> string option \<Rightarrow> string option" where
  "command_after nts body old =
     (case field body ''command'' of
        None \<Rightarrow> old
      | Some JNull \<Rightarrow> None
      | Some c \<Rightarrow> (case jsString nts c of Inr s \<Rightarrow> Some s | Inl e \<Rightarrow> old))"

text \<open>
  The calls the relay endpoint receives: a \<open>GET\<close> for a key, or a \<open>POST\<close> at a time
  for a key with a request. \<open>step\<close> is the effect of one call on the store, and \<open>run\<close>
  the store after a sequence of calls, from the empty store of a fresh process.
\<close>

datatype call = Get string | Post int string request

fun step :: "(8 word list \<Rightarrow> string) \<Rightarrow> (jsnum \<Rightarrow> string) \<Rightarrow> sessions \<Rightarrow> call \<Rightarrow> sessions" where
  "step base64 nts sessions (Get sessionId) = fst (GET sessions sessionId)"
| "step base64 nts sessions (Post now sessionId req) =
     fst (POST base64 nts now sessions sessionId req)"

definition run :: "(8 word list \<Rightarrow> string) \<Rightarrow> (jsnum \<Rightarrow> string) \<Rightarrow> call list \<Rightarrow> sessions" where
  "run base64 nts calls = foldl (step base64 nts) Map.empty calls"

text \<open>
  The part of an id after its last dash, and the invariant of a session: the images
  carry, after the last dash of their ids, their positions in the list.
\<close>

definition id_index :: "string \<Rightarrow> string" where
  "id_index s = rev (takeWhile (\<lambda>c. c \<noteq> CHR ''-'') (rev s))"

definition numbered :: "SessionState \<Rightarrow> bool" where
  "numbered state =
     (map (\<lambda>img. id_index (image_id img)) (images state) =
      map show_nat [0..<length (images state)])"

text \<open>
  A reply fragment \<open>"name":"value"\<close>, and the values without a quote or a backslash.
  A placeholder name is \<open>product_\<close> followed by one or more digits.
\<close>

definition quoted_field :: "string \<Rightarrow> string \<Rightarrow> string" where
  "quoted_field name v = [dquote] @ name @ [dquote] @ '':'' @ [dquote] @ v @ [dquote]"

definition plain :: "string \<Rightarrow> bool" where
  "plain v = (dquote \<notin> set v \<and> backslash \<notin> set v)"

definition placeholder_name :: "string \<Rightarrow> bool" where
  "placeholder_name s =
     (\<exists>digits. digits \<noteq> [] \<and> list_all is_digit digits \<and> s = ''product_'' @ digits)"











definition long_reply :: string where
  "long_reply = quoted_field ''product'' (replicate 121 (CHR ''A''))"

section \<open>Properties of the date normalizer\<close>

lemma re_iso_form: "re_iso t = form_iso t"
  by (cases t rule: re_iso.cases) (auto simp: form_iso_def)

lemma re_dmy_at_Some:
  "re_dmy_at s = Some r \<longleftrightarrow>
     10 \<le> length s \<and> form_dmy (take 10 s) \<and> r = (take 2 s, take 2 (drop 3 s), take 4 (drop 6 s))"
  by (cases s rule: re_dmy_at.cases) (auto simp: form_dmy_def)

lemma re_ymd_at_Some:
  "re_ymd_at s = Some r \<longleftrightarrow>
     10 \<le> length s \<and> form_ymd (take 10 s) \<and> r = (take 4 s, take 2 (drop 5 s), take 2 (drop 8 s))"
  by (cases s rule: re_ymd_at.cases) (auto simp: form_ymd_def)

lemma re_ym_Some:
  "re_ym s = Some r \<longleftrightarrow> form_ym s \<and> r = (take 4 s, drop 5 s)"
  by (cases s rule: re_ym.cases) (auto simp: form_ym_def)

lemma search_None: "search f s = None \<longleftrightarrow> (\<forall>i\<le>length s. f (drop i s) = None)"
proof (induction s)
  case Nil
  then show ?case by simp
next
  case (Cons c cs)
  have "(\<forall>i\<le>length (c # cs). f (drop i (c # cs)) = None) \<longleftrightarrow>
        f (c # cs) = None \<and> (\<forall>i\<le>length cs. f (drop i cs) = None)"
    by (auto simp: drop_Cons split: nat.splits)
  with Cons show ?case by (auto split: option.splits)
qed

lemma search_Some:
  "search f s = Some r \<longleftrightarrow>
     (\<exists>i\<le>length s. f (drop i s) = Some r \<and> (\<forall>j<i. f (drop j s) = None))"
proof (induction s)
  case Nil
  then show ?case by simp
next
  case (Cons c cs)
  show ?case
  proof (cases "f (c # cs)")
    case None
    have "(\<exists>i\<le>length (c # cs). f (drop i (c # cs)) = Some r \<and> (\<forall>j<i. f (drop j (c # cs)) = None))
       \<longleftrightarrow> (\<exists>i\<le>length cs. f (drop i cs) = Some r \<and> (\<forall>j<i. f (drop j cs) = None))"
      (is "?L \<longleftrightarrow> ?R")
    proof
      assume ?L
      then obtain i where i: "i \<le> length (c # cs)" "f (drop i (c # cs)) = Some r"
        "\<forall>j<i. f (drop j (c # cs)) = None" by blast
      from i None obtain k where k: "i = Suc k" by (cases i) auto
      have "\<forall>j<k. f (drop j cs) = None"
      proof (intro allI impI)
        fix j assume "j < k"
        then have "Suc j < i" using k by simp
        with i(3) have "f (drop (Suc j) (c # cs)) = None" by blast
        then show "f (drop j cs) = None" by simp
      qed
      with i k show ?R by auto
    next
      assume ?R
      then obtain i where i: "i \<le> length cs" "f (drop i cs) = Some r"
        "\<forall>j<i. f (drop j cs) = None" by blast
      have "\<forall>j<Suc i. f (drop j (c # cs)) = None"
      proof (intro allI impI)
        fix j assume "j < Suc i"
        then show "f (drop j (c # cs)) = None"
          using None i(3) by (cases j) auto
      qed
      with i show ?L by (intro exI[of _ "Suc i"]) auto
    qed
    with None Cons show ?thesis by simp
  next
    case (Some a)
    have "(\<exists>i\<le>length (c # cs). f (drop i (c # cs)) = Some r \<and> (\<forall>j<i. f (drop j (c # cs)) = None))
       \<longleftrightarrow> a = r" (is "?L \<longleftrightarrow> _")
    proof
      assume ?L
      then obtain i where i: "f (drop i (c # cs)) = Some r"
        "\<forall>j<i. f (drop j (c # cs)) = None" by blast
      have "i = 0"
      proof (rule ccontr)
        assume "i \<noteq> 0"
        then have "f (drop 0 (c # cs)) = None" using i(2) by blast
        with Some show False by simp
      qed
      with i Some show "a = r" by simp
    next
      assume "a = r"
      with Some show ?L by (intro exI[of _ 0]) auto
    qed
    with Some show ?thesis by simp
  qed
qed


lemma absent_iff: "absent P t \<longleftrightarrow> (\<forall>i. i + 10 \<le> length t \<longrightarrow> \<not> P (take 10 (drop i t)))"
  by (auto simp: absent_def list_all_iff)

lemma leftmost_iff:
  "leftmost P t i \<longleftrightarrow>
     i + 10 \<le> length t \<and> P (take 10 (drop i t)) \<and> (\<forall>j<i. \<not> P (take 10 (drop j t)))"
  by (auto simp: leftmost_def list_all_iff)

lemma ten_le_diff: "10 \<le> n - i \<longleftrightarrow> i + 10 \<le> (n::nat)"
  by arith

lemma re_dmy_at_drop:
  "re_dmy_at (drop i t) = Some r \<longleftrightarrow>
     i + 10 \<le> length t \<and> form_dmy (take 10 (drop i t)) \<and>
     r = (take 2 (drop i t), take 2 (drop (i + 3) t), take 4 (drop (i + 6) t))"
  by (simp add: re_dmy_at_Some ten_le_diff add.commute)

lemma re_ymd_at_drop:
  "re_ymd_at (drop i t) = Some r \<longleftrightarrow>
     i + 10 \<le> length t \<and> form_ymd (take 10 (drop i t)) \<and>
     r = (take 4 (drop i t), take 2 (drop (i + 5) t), take 2 (drop (i + 8) t))"
  by (simp add: re_ymd_at_Some ten_le_diff add.commute)

lemma search_window:
  assumes f: "\<And>i r. f (drop i t) = Some r \<longleftrightarrow>
                 i + 10 \<le> length t \<and> P (take 10 (drop i t)) \<and> r = g i"
  shows "search f t = Some r \<longleftrightarrow> (\<exists>i. leftmost P t i \<and> r = g i)"
    and "search f t = None \<longleftrightarrow> absent P t"
proof -
  have none: "f (drop i t) = None \<longleftrightarrow> \<not> (i + 10 \<le> length t \<and> P (take 10 (drop i t)))" for i
    using f[of i] by (cases "f (drop i t)") auto
  show "search f t = Some r \<longleftrightarrow> (\<exists>i. leftmost P t i \<and> r = g i)"
  proof
    assume "search f t = Some r"
    then obtain i where i: "f (drop i t) = Some r" "\<forall>j<i. f (drop j t) = None"
      unfolding search_Some by blast
    from i(1) have here: "i + 10 \<le> length t" "P (take 10 (drop i t))" "r = g i"
      using f by blast+
    have "\<not> P (take 10 (drop j t))" if "j < i" for j
    proof -
      from that i(2) have "f (drop j t) = None" by blast
      moreover from that here(1) have "j + 10 \<le> length t" by simp
      ultimately show ?thesis using none by blast
    qed
    with here show "\<exists>i. leftmost P t i \<and> r = g i"
      unfolding leftmost_iff by blast
  next
    assume "\<exists>i. leftmost P t i \<and> r = g i"
    then obtain i where i: "i + 10 \<le> length t" "P (take 10 (drop i t))"
      "\<forall>j<i. \<not> P (take 10 (drop j t))" "r = g i"
      unfolding leftmost_iff by blast
    then have "f (drop i t) = Some r" using f by blast
    moreover have "\<forall>j<i. f (drop j t) = None" using i(3) none by blast
    moreover have "i \<le> length t" using i(1) by simp
    ultimately show "search f t = Some r" unfolding search_Some by blast
  qed
  show "search f t = None \<longleftrightarrow> absent P t"
    unfolding search_None absent_iff none by auto
qed

lemmas search_dmy = search_window[of re_dmy_at, OF re_dmy_at_drop]
lemmas search_ymd = search_window[of re_ymd_at, OF re_ymd_at_drop]


lemma digit_not_sep3: "is_digit c \<Longrightarrow> \<not> is_sep3 c"
  by (auto simp: is_digit_def is_sep3_def)

lemma form_iso_ymd: "form_iso t \<Longrightarrow> form_ymd t"
  by (simp add: form_iso_def form_ymd_def is_sep3_def)

lemma form_ymd_not_dmy: "form_ymd t \<Longrightarrow> \<not> form_dmy t"
proof
  assume y: "form_ymd t" and d: "form_dmy t"
  from y have "list_all is_digit (take 4 t)" "length t = 10" by (simp_all add: form_ymd_def)
  then have "is_digit (t ! 2)" by (simp add: list_all_length)
  moreover from d have "is_sep3 (t ! 2)" by (simp add: form_dmy_def)
  ultimately show False using digit_not_sep3 by blast
qed

lemma form_iso_fixed: "form_iso t \<Longrightarrow> ymd_to_iso t = t"
proof -
  assume a: "form_iso t"
  then have len: "length t = 10" and s4: "t ! 4 = CHR ''-''" and s7: "t ! 7 = CHR ''-''"
    by (simp_all add: form_iso_def)
  have "t = take 4 t @ drop 4 t" by simp
  also have "drop 4 t = t ! 4 # drop 5 t" using len Cons_nth_drop_Suc[of 4 t] by simp
  also have "drop 5 t = take 2 (drop 5 t) @ drop 7 t"
    using append_take_drop_id[of 2 "drop 5 t"] by simp
  also have "drop 7 t = t ! 7 # drop 8 t" using len Cons_nth_drop_Suc[of 7 t] by simp
  finally show ?thesis using s4 s7 by (simp add: ymd_to_iso_def)
qed

lemma whole_window: "length t = 10 \<Longrightarrow> P t \<Longrightarrow> leftmost P t 0"
  by (simp add: leftmost_iff)

lemma whole_absent: "length t = 10 \<Longrightarrow> \<not> P t \<Longrightarrow> absent P t"
  by (auto simp: absent_iff)

lemma short_absent: "length t < 10 \<Longrightarrow> absent P t"
  by (auto simp: absent_iff)

lemma coerce_iso: "form_iso (trim text) \<Longrightarrow> coerceIsoDate text = trim text"
  by (simp add: coerceIsoDate_def re_iso_form)

lemma coerce_dmy_window:
  assumes "\<not> form_iso (trim text)" "leftmost form_dmy (trim text) i"
  shows "coerceIsoDate text = dmy_to_iso (take 10 (drop i (trim text)))"
proof -
  define t where "t = trim text"
  have "\<exists>r. search re_dmy_at t = Some r" using assms(2) search_dmy(1)[of t] t_def by blast
  then obtain r where r: "search re_dmy_at t = Some r" by blast
  then obtain k where k: "leftmost form_dmy t k"
    "r = (take 2 (drop k t), take 2 (drop (k + 3) t), take 4 (drop (k + 6) t))"
    using search_dmy(1)[of t r] by blast
  have "k = i"
    using k(1) assms(2) unfolding t_def[symmetric] leftmost_iff
    by (meson linorder_neqE_nat)
  with r k(2) assms(1) show ?thesis
    by (simp add: coerceIsoDate_def re_iso_form t_def[symmetric] dmy_to_iso_def drop_take
        add.commute)
qed

lemma coerce_ymd_window:
  assumes "\<not> form_iso (trim text)" "absent form_dmy (trim text)"
    "leftmost form_ymd (trim text) i"
  shows "coerceIsoDate text = ymd_to_iso (take 10 (drop i (trim text)))"
proof -
  define t where "t = trim text"
  have none: "search re_dmy_at t = None" using assms(2) by (simp add: search_dmy(2) t_def)
  have "\<exists>r. search re_ymd_at t = Some r" using assms(3) search_ymd(1)[of t] t_def by blast
  then obtain r where r: "search re_ymd_at t = Some r" by blast
  then obtain k where k: "leftmost form_ymd t k"
    "r = (take 4 (drop k t), take 2 (drop (k + 5) t), take 2 (drop (k + 8) t))"
    using search_ymd(1)[of t r] by blast
  have "k = i"
    using k(1) assms(3) unfolding t_def[symmetric] leftmost_iff
    by (meson linorder_neqE_nat)
  with r k(2) none assms(1) show ?thesis
    by (simp add: coerceIsoDate_def re_iso_form t_def[symmetric] ymd_to_iso_def drop_take
        add.commute)
qed

lemma coerce_ym:
  assumes "form_ym (trim text)"
  shows "coerceIsoDate text = take 4 (trim text) @ ''-'' @ drop 5 (trim text) @ ''-01''"
proof -
  define t where "t = trim text"
  from assms have len: "length t = 7" by (simp add: form_ym_def t_def)
  then have "\<not> form_iso t" by (simp add: form_iso_def)
  moreover have "search re_dmy_at t = None" "search re_ymd_at t = None"
    using len short_absent[of t] by (simp_all add: search_dmy(2) search_ymd(2))
  moreover have "re_ym t = Some (take 4 t, drop 5 t)"
    using assms by (simp add: re_ym_Some t_def)
  ultimately show ?thesis
    by (simp add: coerceIsoDate_def re_iso_form t_def[symmetric])
qed

lemma coerce_other:
  assumes "\<not> form_iso (trim text)" "absent form_dmy (trim text)"
    "absent form_ymd (trim text)" "\<not> form_ym (trim text)"
  shows "coerceIsoDate text = trim text"
proof -
  have "re_ym (trim text) = None"
    using assms(4) re_ym_Some[of "trim text"] by (cases "re_ym (trim text)") auto
  moreover have "search re_dmy_at (trim text) = None" "search re_ymd_at (trim text) = None"
    using assms(2,3) by (simp_all add: search_dmy(2) search_ymd(2))
  ultimately show ?thesis
    using assms(1) by (simp add: coerceIsoDate_def Let_def re_iso_form)
qed

lemma coerce_dmy:
  assumes "form_dmy (trim text)"
  shows "coerceIsoDate text = dmy_to_iso (trim text)"
proof -
  from assms have len: "length (trim text) = 10" by (simp add: form_dmy_def)
  have "\<not> form_iso (trim text)"
    using assms form_iso_ymd form_ymd_not_dmy by blast
  moreover have "leftmost form_dmy (trim text) 0" using len assms by (rule whole_window)
  ultimately show ?thesis using coerce_dmy_window[of "text" 0] len by simp
qed

lemma coerce_ymd:
  assumes "form_ymd (trim text)"
  shows "coerceIsoDate text = ymd_to_iso (trim text)"
proof (cases "form_iso (trim text)")
  case True
  then show ?thesis by (simp add: coerce_iso form_iso_fixed)
next
  case False
  from assms have len: "length (trim text) = 10" by (simp add: form_ymd_def)
  have "absent form_dmy (trim text)"
    using len assms form_ymd_not_dmy by (intro whole_absent) auto
  moreover have "leftmost form_ymd (trim text) 0" using len assms by (rule whole_window)
  ultimately show ?thesis using coerce_ymd_window[of "text" 0] False len by simp
qed

text \<open>
  Claim C1, as the code has it. Let \<open>t\<close> be the input with the white space at both
  ends removed. If \<open>t\<close> is \<open>YYYY-MM-DD\<close> the result is \<open>t\<close>; if \<open>t\<close> is
  \<open>DD[./-]MM[./-]YYYY\<close> or \<open>YYYY[./-]MM[./-]DD\<close> the result is its reordering to
  \<open>YYYY-MM-DD\<close>; if \<open>t\<close> is \<open>YYYY[/-]MM\<close> the result is \<open>YYYY-MM-01\<close>. Otherwise the
  first substring of \<open>t\<close> of the form \<open>DD[./-]MM[./-]YYYY\<close> is reordered, or, when there
  is none, the first one of the form \<open>YYYY[./-]MM[./-]DD\<close>; and when \<open>t\<close> has neither and
  is not month-only, the result is \<open>t\<close>.
\<close>

theorem coerceIsoDate_forms:
  "(form_iso (trim text) \<longrightarrow> coerceIsoDate text = trim text) \<and>
   (form_dmy (trim text) \<longrightarrow> coerceIsoDate text = dmy_to_iso (trim text)) \<and>
   (form_ymd (trim text) \<longrightarrow> coerceIsoDate text = ymd_to_iso (trim text)) \<and>
   (form_ym (trim text) \<longrightarrow>
      coerceIsoDate text = take 4 (trim text) @ ''-'' @ drop 5 (trim text) @ ''-01'') \<and>
   (\<not> form_iso (trim text) \<and> leftmost form_dmy (trim text) i \<longrightarrow>
      coerceIsoDate text = dmy_to_iso (take 10 (drop i (trim text)))) \<and>
   (\<not> form_iso (trim text) \<and> absent form_dmy (trim text) \<and> leftmost form_ymd (trim text) i \<longrightarrow>
      coerceIsoDate text = ymd_to_iso (take 10 (drop i (trim text)))) \<and>
   (\<not> form_iso (trim text) \<and> absent form_dmy (trim text) \<and> absent form_ymd (trim text) \<and>
    \<not> form_ym (trim text) \<longrightarrow> coerceIsoDate text = trim text)"
  using coerce_iso coerce_dmy coerce_ymd coerce_ym coerce_dmy_window coerce_ymd_window
    coerce_other by blast

text \<open>
  The theorem at the inputs of the specification (\<open>2027-01-01\<close>, \<open>06/07/2029\<close>,
  \<open>2027/01\<close>, \<open>June 2029\<close>) and at one input for each of the other cases.
\<close>

theorem coerceIsoDate_forms_witness:
  "(form_iso (trim ''2027-01-01'') \<and> coerceIsoDate ''2027-01-01'' = ''2027-01-01'') \<and>
   (form_dmy (trim ''06/07/2029'') \<and> coerceIsoDate ''06/07/2029'' = ''2029-07-06'') \<and>
   (form_ymd (trim ''2029.07.06'') \<and> coerceIsoDate ''2029.07.06'' = ''2029-07-06'') \<and>
   (form_ym (trim ''2027/01'') \<and> coerceIsoDate ''2027/01'' = ''2027-01-01'') \<and>
   (\<not> form_iso (trim ''EXP 06/07/2029 '') \<and> leftmost form_dmy (trim ''EXP 06/07/2029 '') 4 \<and>
      coerceIsoDate ''EXP 06/07/2029 '' = ''2029-07-06'') \<and>
   (\<not> form_iso (trim ''2027.01.015'') \<and> absent form_dmy (trim ''2027.01.015'') \<and>
      leftmost form_ymd (trim ''2027.01.015'') 0 \<and> coerceIsoDate ''2027.01.015'' = ''2027-01-01'') \<and>
   (\<not> form_iso (trim ''June 2029'') \<and> absent form_dmy (trim ''June 2029'') \<and>
      absent form_ymd (trim ''June 2029'') \<and> \<not> form_ym (trim ''June 2029'') \<and>
      coerceIsoDate ''June 2029'' = ''June 2029'')"
proof -
  have t1: "trim ''2027-01-01'' = ''2027-01-01''" and t2: "trim ''06/07/2029'' = ''06/07/2029''"
    and t3: "trim ''2029.07.06'' = ''2029.07.06''" and t4: "trim ''2027/01'' = ''2027/01''"
    and t5: "trim ''EXP 06/07/2029 '' = ''EXP 06/07/2029''"
    and t6: "trim ''2027.01.015'' = ''2027.01.015''" and t7: "trim ''June 2029'' = ''June 2029''"
    by (simp_all add: trim_def is_space_def)
  have h1: "form_iso ''2027-01-01''" by (simp add: form_iso_def is_digit_def)
  have h2: "form_dmy ''06/07/2029''" by (simp add: form_dmy_def is_digit_def is_sep3_def)
  have h3: "form_ymd ''2029.07.06''" by (simp add: form_ymd_def is_digit_def is_sep3_def)
  have h4: "form_ym ''2027/01''" by (simp add: form_ym_def is_digit_def is_sep2_def)
  have h5: "\<not> form_iso ''EXP 06/07/2029''" "leftmost form_dmy ''EXP 06/07/2029'' 4"
    by (simp_all add: form_iso_def leftmost_def form_dmy_def is_digit_def is_sep3_def upt_rec)
  have h6: "\<not> form_iso ''2027.01.015''" "absent form_dmy ''2027.01.015''"
    "leftmost form_ymd ''2027.01.015'' 0"
    by (simp_all add: form_iso_def leftmost_def absent_def form_dmy_def form_ymd_def
        is_digit_def is_sep3_def upt_rec)
  have h7: "\<not> form_iso ''June 2029''" "absent form_dmy ''June 2029''"
    "absent form_ymd ''June 2029''" "\<not> form_ym ''June 2029''"
    by (simp_all add: form_iso_def absent_def form_ym_def)
  show ?thesis
    using coerceIsoDate_forms[of "''2027-01-01''" 0] coerceIsoDate_forms[of "''06/07/2029''" 0]
      coerceIsoDate_forms[of "''2029.07.06''" 0] coerceIsoDate_forms[of "''2027/01''" 0]
      coerceIsoDate_forms[of "''EXP 06/07/2029 ''" 4] coerceIsoDate_forms[of "''2027.01.015''" 0]
      coerceIsoDate_forms[of "''June 2029''" 0]
    unfolding t1 t2 t3 t4 t5 t6 t7
    using h1 h2 h3 h4 h5 h6 h7
    by (simp add: dmy_to_iso_def ymd_to_iso_def)
qed

text \<open>
  Claim C1 as the specification states it says that an input of none of the four forms
  is returned verbatim. An input with a leading space comes back without it, and an
  input with a date inside other text comes back as that date alone.
\<close>

theorem coerceIsoDate_verbatim_counterexample:
  "(\<not> form_iso '' June 2029'' \<and> \<not> form_dmy '' June 2029'' \<and> \<not> form_ymd '' June 2029'' \<and>
    \<not> form_ym '' June 2029'' \<and> coerceIsoDate '' June 2029'' \<noteq> '' June 2029'') \<and>
   (\<not> form_iso ''EXP 06/07/2029'' \<and> \<not> form_dmy ''EXP 06/07/2029'' \<and>
    \<not> form_ymd ''EXP 06/07/2029'' \<and> \<not> form_ym ''EXP 06/07/2029'' \<and>
    coerceIsoDate ''EXP 06/07/2029'' \<noteq> ''EXP 06/07/2029'')"
  by (simp add: form_iso_def form_dmy_def form_ymd_def form_ym_def coerceIsoDate_def trim_def
      is_space_def is_digit_def is_sep3_def)

section \<open>Properties of the status derivation\<close>

lemma is_double_int: "\<bar>m\<bar> < 2 ^ 53 \<Longrightarrow> is_double (of_int m)"
  unfolding is_double_def by (intro exI[of _ m] exI[of _ 0]) simp

lemma is_double_frac: "\<bar>m\<bar> < 2 ^ 53 \<Longrightarrow> k \<le> 1074 \<Longrightarrow> is_double (of_int m / 2 ^ k)"
  unfolding is_double_def by (intro exI[of _ m] exI[of _ k]) simp

lemma rounds_int: "rounds fl \<Longrightarrow> \<bar>m\<bar> < 2 ^ 53 \<Longrightarrow> fl (of_int m) = of_int m"
  using is_double_int by (simp add: rounds_def)

lemma rounds_le: "rounds fl \<Longrightarrow> x \<le> y \<Longrightarrow> fl x \<le> fl y"
  by (simp add: rounds_def mono_def)

lemma rounds_below_one:
  assumes "rounds fl" shows "fl (- 1 + 1 / 2 ^ 27) = - 1 + 1 / 2 ^ 27"
proof -
  have "is_double (of_int (- 134217727) / 2 ^ 27)" by (rule is_double_frac) simp_all
  moreover have "of_int (- 134217727) / 2 ^ 27 = (- 1 + 1 / 2 ^ 27 :: real)" by simp
  ultimately show ?thesis using assms by (simp add: rounds_def)
qed

lemma rounds_above_thirty:
  assumes "rounds fl" shows "fl (30 + 1 / 2 ^ 27) = 30 + 1 / 2 ^ 27"
proof -
  have "is_double (of_int 4026531841 / 2 ^ 27)" by (rule is_double_frac) simp_all
  moreover have "of_int 4026531841 / 2 ^ 27 = (30 + 1 / 2 ^ 27 :: real)" by simp
  ultimately show ?thesis using assms by (simp add: rounds_def)
qed

lemma rounded_quotient_neg:
  assumes r: "rounds fl"
  shows "fl (fl (of_int n) / 86400000) \<le> - 1 \<longleftrightarrow> n \<le> - 86400000"
proof
  assume le: "n \<le> - 86400000"
  then have "fl (of_int n) \<le> fl (of_int (- 86400000))"
    by (intro rounds_le[OF r]) simp
  also have "\<dots> = - 86400000" using rounds_int[OF r, of "- 86400000"] by simp
  finally have "fl (of_int n) / 86400000 \<le> - 1" by simp
  then have "fl (fl (of_int n) / 86400000) \<le> fl (of_int (- 1))"
    by (intro rounds_le[OF r]) simp
  also have "\<dots> = - 1" using rounds_int[OF r, of "- 1"] by simp
  finally show "fl (fl (of_int n) / 86400000) \<le> - 1" .
next
  assume a: "fl (fl (of_int n) / 86400000) \<le> - 1"
  show "n \<le> - 86400000"
  proof (rule ccontr)
    assume "\<not> n \<le> - 86400000"
    then have "- 86399999 \<le> n" by simp
    then have "fl (of_int (- 86399999)) \<le> fl (of_int n)"
      by (intro rounds_le[OF r]) simp
    moreover have "fl (of_int (- 86399999)) = - 86399999"
      using rounds_int[OF r, of "- 86399999"] by simp
    ultimately have "- 86399999 \<le> fl (of_int n)" by simp
    then have "- 1 + 1 / 2 ^ 27 \<le> fl (of_int n) / 86400000" by simp
    then have "fl (- 1 + 1 / 2 ^ 27) \<le> fl (fl (of_int n) / 86400000)"
      by (intro rounds_le[OF r])
    then have "- 1 + 1 / 2 ^ 27 \<le> fl (fl (of_int n) / 86400000)"
      using rounds_below_one[OF r] by simp
    with a show False by simp
  qed
qed

lemma rounded_quotient_thirty:
  assumes r: "rounds fl"
  shows "fl (fl (of_int n) / 86400000) \<le> 30 \<longleftrightarrow> n \<le> 2592000000"
proof
  assume le: "n \<le> 2592000000"
  then have "fl (of_int n) \<le> fl (of_int 2592000000)"
    by (intro rounds_le[OF r]) simp
  also have "\<dots> = 2592000000" using rounds_int[OF r, of 2592000000] by simp
  finally have "fl (of_int n) / 86400000 \<le> 30" by simp
  then have "fl (fl (of_int n) / 86400000) \<le> fl (of_int 30)"
    by (intro rounds_le[OF r]) simp
  also have "\<dots> = 30" using rounds_int[OF r, of 30] by simp
  finally show "fl (fl (of_int n) / 86400000) \<le> 30" .
next
  assume a: "fl (fl (of_int n) / 86400000) \<le> 30"
  show "n \<le> 2592000000"
  proof (rule ccontr)
    assume "\<not> n \<le> 2592000000"
    then have "2592000001 \<le> n" by simp
    then have "fl (of_int 2592000001) \<le> fl (of_int n)"
      by (intro rounds_le[OF r]) simp
    moreover have "fl (of_int 2592000001) = 2592000001"
      using rounds_int[OF r, of 2592000001] by simp
    ultimately have "2592000001 \<le> fl (of_int n)" by simp
    then have "30 + 1 / 2 ^ 27 \<le> fl (of_int n) / 86400000" by simp
    then have "fl (30 + 1 / 2 ^ 27) \<le> fl (fl (of_int n) / 86400000)"
      by (intro rounds_le[OF r])
    then have "30 + 1 / 2 ^ 27 \<le> fl (fl (of_int n) / 86400000)"
      using rounds_above_thirty[OF r] by simp
    with a show False by simp
  qed
qed

lemma days_until_neg: "days_until now target < 0 \<longleftrightarrow> target - now \<le> - 86400000"
proof -
  have "days_until now target < 0 \<longleftrightarrow> (of_int (target - now) :: real) / 86400000 \<le> - 1"
    by (simp add: days_until_def ceiling_less_iff)
  also have "\<dots> \<longleftrightarrow> (of_int (target - now) :: real) \<le> of_int (- 86400000)"
    by (simp add: divide_le_eq)
  also have "\<dots> \<longleftrightarrow> target - now \<le> - 86400000" by (simp only: of_int_le_iff)
  finally show ?thesis .
qed

lemma days_until_thirty: "days_until now target \<le> 30 \<longleftrightarrow> target - now \<le> 2592000000"
proof -
  have "days_until now target \<le> 30 \<longleftrightarrow> (of_int (target - now) :: real) / 86400000 \<le> 30"
    by (simp add: days_until_def ceiling_le_iff)
  also have "\<dots> \<longleftrightarrow> (of_int (target - now) :: real) \<le> of_int 2592000000"
    by (simp add: divide_le_eq)
  also have "\<dots> \<longleftrightarrow> target - now \<le> 2592000000" by (simp only: of_int_le_iff)
  finally show ?thesis .
qed

lemma diffDays_classes:
  fixes now target :: int
  assumes r: "rounds fl"
  shows "\<lceil>fl (fl (of_int target - of_int now) / (1000 * 60 * 60 * 24))\<rceil> < 0 \<longleftrightarrow>
           days_until now target < 0"
    and "\<lceil>fl (fl (of_int target - of_int now) / (1000 * 60 * 60 * 24))\<rceil> \<le> 30 \<longleftrightarrow>
           days_until now target \<le> 30"
proof -
  have d: "fl (fl (of_int target - of_int now) / (1000 * 60 * 60 * 24)) =
           fl (fl (of_int (target - now)) / 86400000)"
    by simp
  show "\<lceil>fl (fl (of_int target - of_int now) / (1000 * 60 * 60 * 24))\<rceil> < 0 \<longleftrightarrow>
           days_until now target < 0"
    unfolding d days_until_neg using rounded_quotient_neg[OF r, of "target - now"]
    by (simp add: ceiling_less_iff)
  show "\<lceil>fl (fl (of_int target - of_int now) / (1000 * 60 * 60 * 24))\<rceil> \<le> 30 \<longleftrightarrow>
           days_until now target \<le> 30"
    unfolding d days_until_thirty using rounded_quotient_thirty[OF r, of "target - now"]
    by (simp add: ceiling_le_iff)
qed

text \<open>
  Claim C2. With a rounding \<open>fl\<close> as IEEE 754 arithmetic has it: an empty date, a date of
  white space only and a date that does not parse give \<open>Valid\<close>; any other date gives
  \<open>Expired\<close> when the number of days until it, rounded up, is negative, \<open>ExpiringSoon\<close>
  when that number is between 0 and 30, and \<open>Valid\<close> when it is above 30.
\<close>

theorem computeStatus_classes:
  assumes "rounds fl"
  shows "(dateISO = [] \<or> trim dateISO = [] \<or> Date_parse dateISO = None \<longrightarrow>
            computeStatus fl Date_parse now dateISO = Valid) \<and>
         (trim dateISO \<noteq> [] \<and> Date_parse dateISO = Some target \<longrightarrow>
            computeStatus fl Date_parse now dateISO =
              (if days_until now target < 0 then Expired
               else if days_until now target \<le> 30 then ExpiringSoon
               else Valid))"
proof -
  have "trim [] = []" by (simp add: trim_def)
  then have "computeStatus fl Date_parse now dateISO = Valid"
    if "dateISO = [] \<or> trim dateISO = [] \<or> Date_parse dateISO = None"
    using that by (auto simp: computeStatus_def)
  moreover have "computeStatus fl Date_parse now dateISO =
      (if days_until now target < 0 then Expired
       else if days_until now target \<le> 30 then ExpiringSoon else Valid)"
    if "trim dateISO \<noteq> []" "Date_parse dateISO = Some target"
    using that diffDays_classes[OF assms, of target now]
    by (simp add: computeStatus_def Let_def)
  ultimately show ?thesis by blast
qed

text \<open>
  The theorem with today at 2027-01-01T00:00:00Z: the empty string and an unparsable
  string are \<open>Valid\<close>, 45 days out is \<open>Valid\<close>, 10 days out is \<open>ExpiringSoon\<close>, one day
  in the past is \<open>Expired\<close>.
\<close>

theorem computeStatus_classes_witness:
  "rounds (\<lambda>x. x) \<and>
   computeStatus (\<lambda>x. x) (map_of [(''2027-02-15'', 1802649600000)]) 1798761600000 [] = Valid \<and>
   computeStatus (\<lambda>x. x) (map_of [(''2027-02-15'', 1802649600000)]) 1798761600000
     ''June 2029'' = Valid \<and>
   days_until 1798761600000 1802649600000 = 45 \<and>
   computeStatus (\<lambda>x. x) (map_of [(''2027-02-15'', 1802649600000)]) 1798761600000
     ''2027-02-15'' = Valid \<and>
   days_until 1798761600000 1799625600000 = 10 \<and>
   computeStatus (\<lambda>x. x) (map_of [(''2027-01-11'', 1799625600000)]) 1798761600000
     ''2027-01-11'' = ExpiringSoon \<and>
   days_until 1798761600000 1798675200000 = - 1 \<and>
   computeStatus (\<lambda>x. x) (map_of [(''2026-12-31'', 1798675200000)]) 1798761600000
     ''2026-12-31'' = Expired"
proof -
  have r: "rounds (\<lambda>x. x)" by (simp add: rounds_def mono_def)
  have t: "trim ''2027-02-15'' \<noteq> []" "trim ''2027-01-11'' \<noteq> []" "trim ''2026-12-31'' \<noteq> []"
    by (simp_all add: trim_def is_space_def)
  have d: "days_until 1798761600000 1802649600000 = 45"
    "days_until 1798761600000 1799625600000 = 10"
    "days_until 1798761600000 1798675200000 = - 1"
    by (simp_all add: days_until_def ceiling_minus)
  show ?thesis
    using r t d
      computeStatus_classes[OF r, of "[]" "map_of [(''2027-02-15'', 1802649600000)]"
        1798761600000 0]
      computeStatus_classes[OF r, of "''June 2029''" "map_of [(''2027-02-15'', 1802649600000)]"
        1798761600000 0]
      computeStatus_classes[OF r, of "''2027-02-15''" "map_of [(''2027-02-15'', 1802649600000)]"
        1798761600000 1802649600000]
      computeStatus_classes[OF r, of "''2027-01-11''" "map_of [(''2027-01-11'', 1799625600000)]"
        1798761600000 1799625600000]
      computeStatus_classes[OF r, of "''2026-12-31''" "map_of [(''2026-12-31'', 1798675200000)]"
        1798761600000 1798675200000]
    by simp
qed

section \<open>Properties of the session relay endpoint\<close>

lemma getOrCreate_eq:
  "getOrCreate sessions sessionId =
     (sessions(sessionId \<mapsto> session_of sessions sessionId), session_of sessions sessionId)"
  by (auto simp: getOrCreate_def session_of_def split: option.splits)

lemma GET_eq:
  "sessionId \<noteq> [] \<Longrightarrow>
   GET sessions sessionId =
     (sessions(sessionId \<mapsto> session_of sessions sessionId),
      Json200 (session_of sessions sessionId))"
  by (simp add: GET_def getOrCreate_eq)

lemma session_of_upd: "session_of (sessions(k \<mapsto> state)) k = state"
  by (simp add: session_of_def)

text \<open>
  Claim C7. A \<open>GET\<close> with a non-empty key the store does not hold returns the default
  state (both flags false, no command, no images); a second \<open>GET\<close> with the same key
  returns the same response and leaves the store as the first one left it; a \<open>GET\<close>
  with a non-empty key always succeeds, and one with an empty key is the client error
  400. The attribute the specification calls \<open>pendingCommand\<close> is \<open>command\<close> in the code.
\<close>

theorem GET_default_idempotent:
  "(sessionId \<noteq> [] \<and> sessions sessionId = None \<longrightarrow>
      snd (GET sessions sessionId) =
        Json200 \<lparr>mobileConnected = False, webConnected = False, command = None, images = []\<rparr>) \<and>
   (sessionId \<noteq> [] \<longrightarrow>
      GET (fst (GET sessions sessionId)) sessionId = GET sessions sessionId) \<and>
   (sessionId \<noteq> [] \<longrightarrow> (\<exists>state. snd (GET sessions sessionId) = Json200 state)) \<and>
   (sessionId = [] \<longrightarrow> GET sessions sessionId = (sessions, Error400 ''Missing sessionId''))"
proof -
  have "snd (GET sessions sessionId) = Json200 default_state"
    if "sessionId \<noteq> []" "sessions sessionId = None"
    using that by (simp add: GET_eq session_of_def)
  moreover have "GET (fst (GET sessions sessionId)) sessionId = GET sessions sessionId"
    if "sessionId \<noteq> []"
    using that by (simp add: GET_eq session_of_upd)
  moreover have "\<exists>state. snd (GET sessions sessionId) = Json200 state" if "sessionId \<noteq> []"
    using that by (simp add: GET_eq)
  moreover have "GET sessions sessionId = (sessions, Error400 ''Missing sessionId'')"
    if "sessionId = []"
    using that by (simp add: GET_def)
  ultimately show ?thesis by (simp add: default_state_def)
qed

text \<open>The theorem for the key \<open>abc\<close> and for the empty key, on the empty store.\<close>

theorem GET_default_idempotent_witness:
  "''abc'' \<noteq> [] \<and> Map.empty ''abc'' = None \<and>
   snd (GET Map.empty ''abc'') =
     Json200 \<lparr>mobileConnected = False, webConnected = False, command = None, images = []\<rparr> \<and>
   GET (fst (GET Map.empty ''abc'')) ''abc'' = GET Map.empty ''abc'' \<and>
   (\<exists>state. snd (GET Map.empty ''abc'') = Json200 state) \<and>
   GET Map.empty [] = (Map.empty, Error400 ''Missing sessionId'')"
  using GET_default_idempotent[of "''abc''" Map.empty] GET_default_idempotent[of "[]" Map.empty]
  by simp

lemma session_of_other: "k \<noteq> k' \<Longrightarrow> session_of (sessions(k' \<mapsto> state)) k = session_of sessions k"
  by (simp add: session_of_def)

lemma POST_eq:
  "sessionId \<noteq> [] \<Longrightarrow>
   POST base64 nts now sessions sessionId req =
     (let state' = (if is_multipart req
                    then post_multipart base64 now req (session_of sessions sessionId)
                    else post_json nts now req (session_of sessions sessionId))
      in (sessions(sessionId \<mapsto> state'), Json200 state'))"
  by (simp add: POST_def getOrCreate_eq is_multipart_def Let_def)

lemma POST_empty: "POST base64 nts now sessions [] req = (sessions, Error400 ''Missing sessionId'')"
  by (simp add: POST_def)

lemma post_multipart_eq:
  "post_multipart base64 now req state =
     (case image_file req of
        None \<Rightarrow> state
      | Some file \<Rightarrow>
          push_image now
            (''data:'' @ (if file_type file = [] then ''image/jpeg'' else file_type file) @
             '';base64,'' @ base64 (file_bytes file)) state)"
  by (simp add: post_multipart_def image_file_def bufferToDataUrl_def Let_def
      split: option.splits form_value.splits)

lemma push_image_frame:
  "mobileConnected (push_image now url state) = mobileConnected state"
  "webConnected (push_image now url state) = webConnected state"
  "command (push_image now url state) = command state"
  by (simp_all add: push_image_def)

lemma post_multipart_frame:
  "mobileConnected (post_multipart base64 now req state) = mobileConnected state"
  "webConnected (post_multipart base64 now req state) = webConnected state"
  "command (post_multipart base64 now req state) = command state"
  by (simp_all add: post_multipart_eq push_image_frame split: option.splits)

lemma post_multipart_images:
  "images (post_multipart base64 now req state) = images state \<or>
   (\<exists>img. images (post_multipart base64 now req state) = images state @ [img])"
  by (simp add: post_multipart_eq push_image_def split: option.splits)

lemma POST_multipart_session:
  "is_multipart req \<Longrightarrow>
   session_of (fst (POST base64 nts now sessions sessionId req)) k =
     (if k = sessionId \<and> sessionId \<noteq> []
      then post_multipart base64 now req (session_of sessions sessionId)
      else session_of sessions k)"
  by (cases "sessionId = []") (simp_all add: POST_empty POST_eq Let_def session_of_upd, simp add: session_of_def)

text \<open>
  Claim C10. A multipart \<open>POST\<close> leaves \<open>mobileConnected\<close>, \<open>webConnected\<close> and
  \<open>command\<close> of every session as they were, and the images of a session are the ones
  before, or those with one image appended.
\<close>

theorem POST_multipart_frame:
  "is_multipart req \<longrightarrow>
     mobileConnected (session_of (fst (POST base64 nts now sessions sessionId req)) k) =
       mobileConnected (session_of sessions k) \<and>
     webConnected (session_of (fst (POST base64 nts now sessions sessionId req)) k) =
       webConnected (session_of sessions k) \<and>
     command (session_of (fst (POST base64 nts now sessions sessionId req)) k) =
       command (session_of sessions k) \<and>
     (images (session_of (fst (POST base64 nts now sessions sessionId req)) k) =
        images (session_of sessions k) \<or>
      (\<exists>img. images (session_of (fst (POST base64 nts now sessions sessionId req)) k) =
         images (session_of sessions k) @ [img]))"
  using post_multipart_images[of base64 now req "session_of sessions sessionId"]
  by (simp add: POST_multipart_session post_multipart_frame)

text \<open>The theorem for an upload to a session whose flags and command are set.\<close>

theorem POST_multipart_frame_witness:
  "is_multipart png_upload \<and>
   mobileConnected (session_of (fst (POST base64_example nts_example 1700000000000 paired
     ''abc'' png_upload)) ''abc'') = True \<and>
   webConnected (session_of (fst (POST base64_example nts_example 1700000000000 paired
     ''abc'' png_upload)) ''abc'') = True \<and>
   command (session_of (fst (POST base64_example nts_example 1700000000000 paired
     ''abc'' png_upload)) ''abc'') = Some ''open_camera''"
proof -
  have m: "is_multipart png_upload" by (simp add: is_multipart_def png_upload_def)
  have s: "session_of paired ''abc'' = \<lparr>mobileConnected = True, webConnected = True,
      command = Some ''open_camera'', images = []\<rparr>"
    by (simp add: session_of_def paired_def)
  show ?thesis
    using m POST_multipart_frame[of png_upload base64_example nts_example 1700000000000 paired
        "''abc''" "''abc''"]
    by (simp add: s)
qed

lemma POST_multipart_response:
  "sessionId \<noteq> [] \<Longrightarrow> is_multipart req \<Longrightarrow>
   snd (POST base64 nts now sessions sessionId req) =
     Json200 (session_of (fst (POST base64 nts now sessions sessionId req)) sessionId)"
  by (simp add: POST_eq Let_def session_of_upd)

lemma data_image_prefix:
  assumes "mime = [] \<or> take 6 mime = ''image/''"
  shows "take 11 (''data:'' @ (if mime = [] then ''image/jpeg'' else mime) @ r) = ''data:image/''"
proof (cases "mime = []")
  case True
  then show ?thesis by simp
next
  case False
  with assms have t: "take 6 mime = ''image/''" by simp
  have "length (take 6 mime) = 6" unfolding t by simp
  then have "6 \<le> length mime" by simp
  then show ?thesis using False t by simp
qed

text \<open>
  Claim C6, as the code has it. A multipart \<open>POST\<close> whose field \<open>image\<close> is a file with
  bytes appends exactly one image to the session: its id is \<open>mobile-\<close>, the time stamp,
  a dash and the number of images before; its product and expiry date are empty; its
  data URL is \<open>data:\<close>, the type of the file (\<open>image/jpeg\<close> when the file has none),
  \<open>;base64,\<close> and the encoded bytes. The URL is not empty, and it begins with
  \<open>data:image/\<close> when the type of the file is empty or begins with \<open>image/\<close>. Without
  such a file the session stays as it was. In both cases the response is the state of
  the session, with status 200.
\<close>

theorem POST_multipart_append:
  "sessionId \<noteq> [] \<and> is_multipart req \<longrightarrow>
     (\<forall>file. image_file req = Some file \<longrightarrow>
        images (session_of (fst (POST base64 nts now sessions sessionId req)) sessionId) =
          images (session_of sessions sessionId) @
            [\<lparr>image_id = ''mobile-'' @ show_int now @ ''-'' @
                 show_nat (length (images (session_of sessions sessionId))),
              dataUrl = ''data:'' @ (if file_type file = [] then ''image/jpeg'' else file_type file) @
                 '';base64,'' @ base64 (file_bytes file),
              image_product = [], image_expiryDate = []\<rparr>] \<and>
        length (images (session_of (fst (POST base64 nts now sessions sessionId req)) sessionId)) =
          length (images (session_of sessions sessionId)) + 1 \<and>
        dataUrl (last (images (session_of (fst (POST base64 nts now sessions sessionId req))
          sessionId))) \<noteq> [] \<and>
        (file_type file = [] \<or> take 6 (file_type file) = ''image/'' \<longrightarrow>
           take 11 (dataUrl (last (images (session_of (fst (POST base64 nts now sessions sessionId
             req)) sessionId)))) = ''data:image/'')) \<and>
     (image_file req = None \<longrightarrow>
        session_of (fst (POST base64 nts now sessions sessionId req)) sessionId =
          session_of sessions sessionId) \<and>
     snd (POST base64 nts now sessions sessionId req) =
       Json200 (session_of (fst (POST base64 nts now sessions sessionId req)) sessionId)"
proof (intro impI, elim conjE)
  assume a: "sessionId \<noteq> []" "is_multipart req"
  let ?st = "session_of sessions sessionId"
  let ?st' = "session_of (fst (POST base64 nts now sessions sessionId req)) sessionId"
  have st': "?st' = post_multipart base64 now req ?st"
    using a by (simp add: POST_multipart_session)
  show "(\<forall>file. image_file req = Some file \<longrightarrow>
        images ?st' =
          images ?st @
            [\<lparr>image_id = ''mobile-'' @ show_int now @ ''-'' @ show_nat (length (images ?st)),
              dataUrl = ''data:'' @ (if file_type file = [] then ''image/jpeg'' else file_type file) @
                 '';base64,'' @ base64 (file_bytes file),
              image_product = [], image_expiryDate = []\<rparr>] \<and>
        length (images ?st') = length (images ?st) + 1 \<and>
        dataUrl (last (images ?st')) \<noteq> [] \<and>
        (file_type file = [] \<or> take 6 (file_type file) = ''image/'' \<longrightarrow>
           take 11 (dataUrl (last (images ?st'))) = ''data:image/'')) \<and>
     (image_file req = None \<longrightarrow> ?st' = ?st) \<and>
     snd (POST base64 nts now sessions sessionId req) = Json200 ?st'"
    unfolding st' using a data_image_prefix
    by (simp add: POST_multipart_response st' post_multipart_eq push_image_def)
qed

text \<open>
  The theorem for the upload of a PNG to the session \<open>abc\<close> at time 1700000000000, and
  for a multipart request without a file.
\<close>

lemma show_nat_0: "show_nat 0 = ''0''"
  by (simp add: show_nat.simps)

lemma show_stamp: "show_int 1700000000000 = ''1700000000000''"
  by (simp add: show_int_def show_nat.simps)

theorem POST_multipart_append_witness:
  "''abc'' \<noteq> [] \<and> is_multipart png_upload \<and>
   image_file png_upload = Some \<lparr>file_type = ''image/png'', file_bytes = [1, 2, 3]\<rparr> \<and>
   take 6 ''image/png'' = ''image/'' \<and>
   images (session_of (fst (POST base64_example nts_example 1700000000000 paired ''abc''
     png_upload)) ''abc'') =
     [\<lparr>image_id = ''mobile-1700000000000-0'', dataUrl = ''data:image/png;base64,AQID'',
       image_product = [], image_expiryDate = []\<rparr>] \<and>
   take 11 (dataUrl (last (images (session_of (fst (POST base64_example nts_example
     1700000000000 paired ''abc'' png_upload)) ''abc'')))) = ''data:image/'' \<and>
   is_multipart empty_upload \<and> image_file empty_upload = None \<and>
   session_of (fst (POST base64_example nts_example 1700000000000 paired ''abc''
     empty_upload)) ''abc'' = session_of paired ''abc'' \<and>
   snd (POST base64_example nts_example 1700000000000 paired ''abc'' empty_upload) =
     Json200 (session_of paired ''abc'')"
proof -
  have m: "is_multipart png_upload" "is_multipart empty_upload"
    by (simp_all add: is_multipart_def png_upload_def empty_upload_def)
  have f: "image_file png_upload = Some \<lparr>file_type = ''image/png'', file_bytes = [1, 2, 3]\<rparr>"
    "image_file empty_upload = None"
    by (simp_all add: image_file_def png_upload_def empty_upload_def)
  have s: "images (session_of paired ''abc'') = []"
    by (simp add: session_of_def paired_def)
  show ?thesis
    using m f
      POST_multipart_append[of "''abc''" png_upload base64_example nts_example 1700000000000 paired]
      POST_multipart_append[of "''abc''" empty_upload base64_example nts_example 1700000000000
        paired]
    by (simp add: s show_nat_0 show_stamp base64_example_def)
qed

text \<open>
  Claim C6 as the specification states it says that the data URL always begins with
  \<open>data:image/\<close>. The handler does not look at the type of the file: a text file gives a
  URL that begins with \<open>data:text/plain\<close>.
\<close>

theorem POST_multipart_dataUrl_counterexample:
  "''abc'' \<noteq> [] \<and> is_multipart text_upload \<and>
   image_file text_upload = Some \<lparr>file_type = ''text/plain'', file_bytes = [65]\<rparr> \<and>
   dataUrl (last (images (session_of (fst (POST base64_example nts_example 1700000000000
     Map.empty ''abc'' text_upload)) ''abc''))) = ''data:text/plain;base64,QQ=='' \<and>
   take 11 (dataUrl (last (images (session_of (fst (POST base64_example nts_example
     1700000000000 Map.empty ''abc'' text_upload)) ''abc'')))) \<noteq> ''data:image/''"
proof -
  have m: "is_multipart text_upload"
    by (simp add: is_multipart_def text_upload_def)
  have f: "image_file text_upload = Some \<lparr>file_type = ''text/plain'', file_bytes = [65]\<rparr>"
    by (simp add: image_file_def text_upload_def)
  have "session_of (fst (POST base64_example nts_example 1700000000000 Map.empty ''abc''
      text_upload)) ''abc'' =
    post_multipart base64_example 1700000000000 text_upload (session_of Map.empty ''abc'')"
    using m by (simp add: POST_multipart_session)
  then show ?thesis
    using m f
    by (simp add: post_multipart_eq push_image_def session_of_def default_state_def
        base64_example_def)
qed

subsection \<open>The JSON branch\<close>

lemma getProp_field:
  "getProp body name = (if body = JNull then Inl TypeError else Inr (field body name))"
  by (cases body) (simp_all add: field_def)

lemma set_mobileConnected_eq:
  "body \<noteq> JNull \<Longrightarrow>
   set_mobileConnected body state =
     Inr (state\<lparr>mobileConnected := flag_after body ''mobileConnected'' (mobileConnected state)\<rparr>)"
  by (simp add: set_mobileConnected_def getProp_field bind_def flag_after_def
      split: option.splits json.splits)

lemma set_webConnected_eq:
  "body \<noteq> JNull \<Longrightarrow>
   set_webConnected body state =
     Inr (state\<lparr>webConnected := flag_after body ''webConnected'' (webConnected state)\<rparr>)"
  by (simp add: set_webConnected_def getProp_field bind_def flag_after_def
      split: option.splits json.splits)

lemma set_command_throws:
  "body \<noteq> JNull \<Longrightarrow> \<not> command_converts nts body \<Longrightarrow> \<exists>e. set_command nts body state = Inl e"
  by (auto simp del: jsString.simps simp: set_command_def getProp_field bind_def
      command_converts_def split: option.splits json.splits sum.splits)

lemma set_command_eq:
  "body \<noteq> JNull \<Longrightarrow> command_converts nts body \<Longrightarrow>
   set_command nts body state = Inr (state\<lparr>command := command_after nts body (command state)\<rparr>)"
  by (auto simp del: jsString.simps simp: set_command_def getProp_field bind_def
      command_converts_def command_after_def split: option.splits json.splits sum.splits)

lemma add_image_eq:
  "body \<noteq> JNull \<Longrightarrow>
   add_image now body state =
     Inr (case field body ''image'' of
            Some (JStr s) \<Rightarrow> if s = [] then state else push_image now s state
          | _ \<Rightarrow> state)"
  by (simp add: add_image_def getProp_field bind_def split: option.splits json.splits)

text \<open>The state after the JSON branch, case by case.\<close>

lemma post_json_malformed: "json_body req = None \<Longrightarrow> post_json nts now req state = state"
  by (simp add: post_json_def)

lemma post_json_null: "json_body req = Some JNull \<Longrightarrow> post_json nts now req state = state"
  by (simp add: post_json_def set_mobileConnected_def bind_def)

lemma post_json_throws:
  assumes "json_body req = Some body" "body \<noteq> JNull" "\<not> command_converts nts body"
  shows "post_json nts now req state =
     state\<lparr>mobileConnected := flag_after body ''mobileConnected'' (mobileConnected state),
           webConnected := flag_after body ''webConnected'' (webConnected state)\<rparr>"
proof -
  obtain e where "set_command nts body
      (state\<lparr>mobileConnected := flag_after body ''mobileConnected'' (mobileConnected state),
             webConnected := flag_after body ''webConnected'' (webConnected state)\<rparr>) = Inl e"
    using set_command_throws[OF assms(2,3)] by blast
  then show ?thesis
    using assms(1,2)
    by (simp add: post_json_def set_mobileConnected_eq set_webConnected_eq)
qed

lemma post_json_converts:
  assumes "json_body req = Some body" "body \<noteq> JNull" "command_converts nts body"
  shows "post_json nts now req state =
     (let state3 =
        state\<lparr>mobileConnected := flag_after body ''mobileConnected'' (mobileConnected state),
              webConnected := flag_after body ''webConnected'' (webConnected state),
              command := command_after nts body (command state)\<rparr>
      in case field body ''image'' of
           Some (JStr s) \<Rightarrow> if s = [] then state3 else push_image now s state3
         | _ \<Rightarrow> state3)"
  using assms
  by (simp add: post_json_def set_mobileConnected_eq set_webConnected_eq set_command_eq
      add_image_eq Let_def)

lemma field_JNull: "field JNull name = None"
  by (simp add: field_def)

lemma post_json_flags:
  assumes "json_body req = Some body"
  shows "mobileConnected (post_json nts now req state) =
           flag_after body ''mobileConnected'' (mobileConnected state)"
    and "webConnected (post_json nts now req state) =
           flag_after body ''webConnected'' (webConnected state)"
proof -
  consider "body = JNull" | "body \<noteq> JNull" "\<not> command_converts nts body"
    | "body \<noteq> JNull" "command_converts nts body" by blast
  then have "mobileConnected (post_json nts now req state) =
           flag_after body ''mobileConnected'' (mobileConnected state) \<and>
         webConnected (post_json nts now req state) =
           flag_after body ''webConnected'' (webConnected state)"
  proof cases
    case 1
    then show ?thesis using assms by (simp add: post_json_null flag_after_def field_JNull)
  next
    case 2
    then show ?thesis using assms by (simp add: post_json_throws)
  next
    case 3
    then show ?thesis using assms
      by (simp add: post_json_converts Let_def push_image_def split: option.splits json.splits)
  qed
  then show "mobileConnected (post_json nts now req state) =
           flag_after body ''mobileConnected'' (mobileConnected state)"
    and "webConnected (post_json nts now req state) =
           flag_after body ''webConnected'' (webConnected state)" by simp_all
qed

lemma post_json_command:
  assumes "json_body req = Some body"
  shows "command (post_json nts now req state) =
           (if command_converts nts body then command_after nts body (command state)
            else command state)"
proof -
  consider "body = JNull" | "body \<noteq> JNull" "\<not> command_converts nts body"
    | "body \<noteq> JNull" "command_converts nts body" by blast
  then show ?thesis
  proof cases
    case 1
    then show ?thesis using assms
      by (simp add: post_json_null command_after_def field_JNull)
  next
    case 2
    then show ?thesis using assms by (simp add: post_json_throws)
  next
    case 3
    then show ?thesis using assms
      by (simp add: post_json_converts Let_def push_image_def split: option.splits json.splits)
  qed
qed

lemma post_json_images:
  assumes "json_body req = Some body"
  shows "images (post_json nts now req state) =
           (case field body ''image'' of
              Some (JStr s) \<Rightarrow>
                if s \<noteq> [] \<and> command_converts nts body
                then images state @ [relayed_image now s state] else images state
            | _ \<Rightarrow> images state)"
proof -
  consider "body = JNull" | "body \<noteq> JNull" "\<not> command_converts nts body"
    | "body \<noteq> JNull" "command_converts nts body" by blast
  then show ?thesis
  proof cases
    case 1
    then show ?thesis using assms by (simp add: post_json_null field_JNull)
  next
    case 2
    then show ?thesis using assms
      by (simp add: post_json_throws split: option.splits json.splits)
  next
    case 3
    then show ?thesis using assms
      by (simp add: post_json_converts Let_def push_image_def relayed_image_def
          split: option.splits json.splits)
  qed
qed

lemma POST_json_session:
  "\<not> is_multipart req \<Longrightarrow>
   session_of (fst (POST base64 nts now sessions sessionId req)) k =
     (if k = sessionId \<and> sessionId \<noteq> []
      then post_json nts now req (session_of sessions sessionId)
      else session_of sessions k)"
  by (cases "sessionId = []")
    (simp_all add: POST_empty POST_eq Let_def session_of_upd session_of_other)

lemma POST_response:
  "sessionId \<noteq> [] \<Longrightarrow>
   snd (POST base64 nts now sessions sessionId req) =
     Json200 (session_of (fst (POST base64 nts now sessions sessionId req)) sessionId)"
  by (simp add: POST_eq Let_def session_of_upd)

text \<open>
  Claim C5, as the code has it. A \<open>POST\<close> that is not multipart returns the resulting
  state of the session. A body that is no JSON leaves the session as it was. With a JSON
  body: a boolean \<open>mobileConnected\<close> or \<open>webConnected\<close> becomes the flag, and the flag
  stays when the body has no such boolean; a \<open>command\<close> that is \<open>null\<close> clears the
  command, a string becomes the command, and without the member the command stays; a
  non-empty string \<open>image\<close> appends one image with that string as its data URL, provided
  the conversion of \<open>command\<close> does not throw; and without a non-empty string \<open>image\<close> the
  images stay.
\<close>

theorem POST_json_partial_update:
  "sessionId \<noteq> [] \<and> \<not> is_multipart req \<longrightarrow>
     (let state = session_of sessions sessionId;
          state' = session_of (fst (POST base64 nts now sessions sessionId req)) sessionId
      in snd (POST base64 nts now sessions sessionId req) = Json200 state' \<and>
         (json_body req = None \<longrightarrow> state' = state) \<and>
         (\<forall>body. json_body req = Some body \<longrightarrow>
            (\<forall>b. field body ''mobileConnected'' = Some (JBool b) \<longrightarrow> mobileConnected state' = b) \<and>
            ((\<forall>b. field body ''mobileConnected'' \<noteq> Some (JBool b)) \<longrightarrow>
               mobileConnected state' = mobileConnected state) \<and>
            (\<forall>b. field body ''webConnected'' = Some (JBool b) \<longrightarrow> webConnected state' = b) \<and>
            ((\<forall>b. field body ''webConnected'' \<noteq> Some (JBool b)) \<longrightarrow>
               webConnected state' = webConnected state) \<and>
            (field body ''command'' = Some JNull \<longrightarrow> command state' = None) \<and>
            (\<forall>s. field body ''command'' = Some (JStr s) \<longrightarrow> command state' = Some s) \<and>
            (field body ''command'' = None \<longrightarrow> command state' = command state) \<and>
            (\<forall>s. field body ''image'' = Some (JStr s) \<and> s \<noteq> [] \<and> command_converts nts body \<longrightarrow>
               images state' = images state @ [relayed_image now s state]) \<and>
            ((\<forall>s. field body ''image'' = Some (JStr s) \<longrightarrow> s = []) \<longrightarrow>
               images state' = images state)))"
proof (intro impI, elim conjE)
  assume a: "sessionId \<noteq> []" "\<not> is_multipart req"
  let ?st = "session_of sessions sessionId"
  have st': "session_of (fst (POST base64 nts now sessions sessionId req)) sessionId =
      post_json nts now req ?st"
    using a by (simp add: POST_json_session)
  have flags: "(\<forall>b. field body name = Some (JBool b) \<longrightarrow> flag_after body name old = b) \<and>
      ((\<forall>b. field body name \<noteq> Some (JBool b)) \<longrightarrow> flag_after body name old = old)"
    for body name old
    by (auto simp: flag_after_def split: option.splits json.splits)
  have cmd: "(field body ''command'' = Some JNull \<longrightarrow> command (post_json nts now req ?st) = None) \<and>
      (\<forall>s. field body ''command'' = Some (JStr s) \<longrightarrow>
         command (post_json nts now req ?st) = Some s) \<and>
      (field body ''command'' = None \<longrightarrow> command (post_json nts now req ?st) = command ?st)"
    if "json_body req = Some body" for body
    using post_json_command[OF that, of nts now ?st]
    by (auto simp: command_converts_def command_after_def)
  have img: "(\<forall>s. field body ''image'' = Some (JStr s) \<and> s \<noteq> [] \<and> command_converts nts body \<longrightarrow>
         images (post_json nts now req ?st) = images ?st @ [relayed_image now s ?st]) \<and>
      ((\<forall>s. field body ''image'' = Some (JStr s) \<longrightarrow> s = []) \<longrightarrow>
         images (post_json nts now req ?st) = images ?st)"
    if "json_body req = Some body" for body
    using post_json_images[OF that, of nts now ?st]
    by (auto split: option.splits json.splits)
  show "let state = session_of sessions sessionId;
          state' = session_of (fst (POST base64 nts now sessions sessionId req)) sessionId
      in snd (POST base64 nts now sessions sessionId req) = Json200 state' \<and>
         (json_body req = None \<longrightarrow> state' = state) \<and>
         (\<forall>body. json_body req = Some body \<longrightarrow>
            (\<forall>b. field body ''mobileConnected'' = Some (JBool b) \<longrightarrow> mobileConnected state' = b) \<and>
            ((\<forall>b. field body ''mobileConnected'' \<noteq> Some (JBool b)) \<longrightarrow>
               mobileConnected state' = mobileConnected state) \<and>
            (\<forall>b. field body ''webConnected'' = Some (JBool b) \<longrightarrow> webConnected state' = b) \<and>
            ((\<forall>b. field body ''webConnected'' \<noteq> Some (JBool b)) \<longrightarrow>
               webConnected state' = webConnected state) \<and>
            (field body ''command'' = Some JNull \<longrightarrow> command state' = None) \<and>
            (\<forall>s. field body ''command'' = Some (JStr s) \<longrightarrow> command state' = Some s) \<and>
            (field body ''command'' = None \<longrightarrow> command state' = command state) \<and>
            (\<forall>s. field body ''image'' = Some (JStr s) \<and> s \<noteq> [] \<and> command_converts nts body \<longrightarrow>
               images state' = images state @ [relayed_image now s state]) \<and>
            ((\<forall>s. field body ''image'' = Some (JStr s) \<longrightarrow> s = []) \<longrightarrow>
               images state' = images state))"
    unfolding Let_def st'
  proof (intro conjI allI impI)
    show "snd (POST base64 nts now sessions sessionId req) = Json200 (post_json nts now req ?st)"
      using POST_response[OF a(1), of base64 nts now sessions req] st' by simp
  next
    assume "json_body req = None"
    then show "post_json nts now req ?st = ?st" by (rule post_json_malformed)
  next
    fix body b assume "json_body req = Some body" "field body ''mobileConnected'' = Some (JBool b)"
    then show "mobileConnected (post_json nts now req ?st) = b"
      using flags by (simp add: post_json_flags)
  next
    fix body assume "json_body req = Some body" "\<forall>b. field body ''mobileConnected'' \<noteq> Some (JBool b)"
    then show "mobileConnected (post_json nts now req ?st) = mobileConnected ?st"
      using flags by (simp add: post_json_flags)
  next
    fix body b assume "json_body req = Some body" "field body ''webConnected'' = Some (JBool b)"
    then show "webConnected (post_json nts now req ?st) = b"
      using flags by (simp add: post_json_flags)
  next
    fix body assume "json_body req = Some body" "\<forall>b. field body ''webConnected'' \<noteq> Some (JBool b)"
    then show "webConnected (post_json nts now req ?st) = webConnected ?st"
      using flags by (simp add: post_json_flags)
  next
    fix body assume "json_body req = Some body" "field body ''command'' = Some JNull"
    then show "command (post_json nts now req ?st) = None" using cmd by blast
  next
    fix body s assume "json_body req = Some body" "field body ''command'' = Some (JStr s)"
    then show "command (post_json nts now req ?st) = Some s" using cmd by blast
  next
    fix body assume "json_body req = Some body" "field body ''command'' = None"
    then show "command (post_json nts now req ?st) = command ?st" using cmd by blast
  next
    fix body s
    assume "json_body req = Some body"
      "field body ''image'' = Some (JStr s) \<and> s \<noteq> [] \<and> command_converts nts body"
    then show "images (post_json nts now req ?st) = images ?st @ [relayed_image now s ?st]"
      using img by blast
  next
    fix body
    assume "json_body req = Some body" "\<forall>s. field body ''image'' = Some (JStr s) \<longrightarrow> s = []"
    then show "images (post_json nts now req ?st) = images ?st" using img by blast
  qed
qed

text \<open>
  The theorem on the session \<open>abc\<close> with both flags set and a pending command, for a
  body that clears a flag and the command and relays an image, a body that clears the
  other flag only, a body that sets the command, and a body that is no JSON.
\<close>

lemma json_request_simps:
  "\<not> is_multipart (json_request body)" "json_body (json_request body) = body"
  by (simp_all add: json_request_def is_multipart_def)

lemma paired_abc:
  "session_of paired ''abc'' =
     \<lparr>mobileConnected = True, webConnected = True, command = Some ''open_camera'', images = []\<rparr>"
  by (simp add: session_of_def paired_def)

theorem POST_json_partial_update_witness:
  "''abc'' \<noteq> [] \<and> \<not> is_multipart (json_request (Some relay_body)) \<and>
   field relay_body ''mobileConnected'' = Some (JBool False) \<and>
   (\<forall>b. field relay_body ''webConnected'' \<noteq> Some (JBool b)) \<and>
   field relay_body ''command'' = Some JNull \<and>
   field relay_body ''image'' = Some (JStr ''data:image/png;base64,AQID'') \<and>
   command_converts nts_example relay_body \<and>
   mobileConnected (session_of (fst (POST base64_example nts_example 1700000000000 paired ''abc''
     (json_request (Some relay_body)))) ''abc'') = False \<and>
   webConnected (session_of (fst (POST base64_example nts_example 1700000000000 paired ''abc''
     (json_request (Some relay_body)))) ''abc'') = True \<and>
   command (session_of (fst (POST base64_example nts_example 1700000000000 paired ''abc''
     (json_request (Some relay_body)))) ''abc'') = None \<and>
   images (session_of (fst (POST base64_example nts_example 1700000000000 paired ''abc''
     (json_request (Some relay_body)))) ''abc'') =
     [\<lparr>image_id = ''mobile-1700000000000-0'', dataUrl = ''data:image/png;base64,AQID'',
       image_product = [], image_expiryDate = []\<rparr>] \<and>
   field web_off_body ''webConnected'' = Some (JBool False) \<and>
   (\<forall>b. field web_off_body ''mobileConnected'' \<noteq> Some (JBool b)) \<and>
   field web_off_body ''command'' = None \<and>
   field web_off_body ''image'' = None \<and>
   mobileConnected (session_of (fst (POST base64_example nts_example 1700000000000 paired ''abc''
     (json_request (Some web_off_body)))) ''abc'') = True \<and>
   webConnected (session_of (fst (POST base64_example nts_example 1700000000000 paired ''abc''
     (json_request (Some web_off_body)))) ''abc'') = False \<and>
   command (session_of (fst (POST base64_example nts_example 1700000000000 paired ''abc''
     (json_request (Some web_off_body)))) ''abc'') = Some ''open_camera'' \<and>
   images (session_of (fst (POST base64_example nts_example 1700000000000 paired ''abc''
     (json_request (Some web_off_body)))) ''abc'') = [] \<and>
   field close_body ''command'' = Some (JStr ''close'') \<and>
   command (session_of (fst (POST base64_example nts_example 1700000000000 paired ''abc''
     (json_request (Some close_body)))) ''abc'') = Some ''close'' \<and>
   json_body (json_request None) = None \<and>
   session_of (fst (POST base64_example nts_example 1700000000000 paired ''abc''
     (json_request None))) ''abc'' = session_of paired ''abc'' \<and>
   snd (POST base64_example nts_example 1700000000000 paired ''abc'' (json_request None)) =
     Json200 (session_of paired ''abc'')"
proof -
  have f1: "field relay_body ''mobileConnected'' = Some (JBool False)"
    "\<forall>b. field relay_body ''webConnected'' \<noteq> Some (JBool b)"
    "field relay_body ''command'' = Some JNull"
    "field relay_body ''image'' = Some (JStr ''data:image/png;base64,AQID'')"
    "command_converts nts_example relay_body"
    by (simp_all add: field_def relay_body_def command_converts_def)
  have f2: "field web_off_body ''webConnected'' = Some (JBool False)"
    "\<forall>b. field web_off_body ''mobileConnected'' \<noteq> Some (JBool b)"
    "field web_off_body ''command'' = None"
    "field web_off_body ''image'' = None"
    by (simp_all add: field_def web_off_body_def)
  have f3: "field close_body ''command'' = Some (JStr ''close'')"
    by (simp add: field_def close_body_def)
  have r: "relayed_image 1700000000000 ''data:image/png;base64,AQID'' (session_of paired ''abc'') =
      \<lparr>image_id = ''mobile-1700000000000-0'', dataUrl = ''data:image/png;base64,AQID'',
       image_product = [], image_expiryDate = []\<rparr>"
    by (simp add: relayed_image_def paired_abc show_nat_0 show_stamp)
  note t = POST_json_partial_update[where sessionId = "''abc''" and sessions = paired
      and ?base64.0 = base64_example and nts = nts_example and now = 1700000000000]
  from t[of "json_request (Some relay_body)"] f1 r
  have c1: "mobileConnected (session_of (fst (POST base64_example nts_example 1700000000000 paired
      ''abc'' (json_request (Some relay_body)))) ''abc'') = False"
    "webConnected (session_of (fst (POST base64_example nts_example 1700000000000 paired ''abc''
      (json_request (Some relay_body)))) ''abc'') = True"
    "command (session_of (fst (POST base64_example nts_example 1700000000000 paired ''abc''
      (json_request (Some relay_body)))) ''abc'') = None"
    "images (session_of (fst (POST base64_example nts_example 1700000000000 paired ''abc''
      (json_request (Some relay_body)))) ''abc'') =
      [\<lparr>image_id = ''mobile-1700000000000-0'', dataUrl = ''data:image/png;base64,AQID'',
        image_product = [], image_expiryDate = []\<rparr>]"
    by (auto simp: Let_def json_request_simps paired_abc)
  from t[of "json_request (Some web_off_body)"] f2
  have c2: "mobileConnected (session_of (fst (POST base64_example nts_example 1700000000000 paired
      ''abc'' (json_request (Some web_off_body)))) ''abc'') = True"
    "webConnected (session_of (fst (POST base64_example nts_example 1700000000000 paired ''abc''
      (json_request (Some web_off_body)))) ''abc'') = False"
    "command (session_of (fst (POST base64_example nts_example 1700000000000 paired ''abc''
      (json_request (Some web_off_body)))) ''abc'') = Some ''open_camera''"
    "images (session_of (fst (POST base64_example nts_example 1700000000000 paired ''abc''
      (json_request (Some web_off_body)))) ''abc'') = []"
    by (auto simp: Let_def json_request_simps paired_abc)
  from t[of "json_request (Some close_body)"] f3
  have c3: "command (session_of (fst (POST base64_example nts_example 1700000000000 paired ''abc''
      (json_request (Some close_body)))) ''abc'') = Some ''close''"
    by (auto simp: Let_def json_request_simps)
  from t[of "json_request None"]
  have c4: "session_of (fst (POST base64_example nts_example 1700000000000 paired ''abc''
      (json_request None))) ''abc'' = session_of paired ''abc''"
    "snd (POST base64_example nts_example 1700000000000 paired ''abc'' (json_request None)) =
      Json200 (session_of paired ''abc'')"
    by (auto simp: Let_def json_request_simps)
  show ?thesis
    using f1 f2 f3 c1 c2 c3 c4 by (simp add: json_request_simps)
qed

text \<open>
  Claim C5 as the specification states it says that a non-empty string \<open>image\<close> always
  appends an image. When \<open>command\<close> is an object with a member \<open>toString\<close>,
  \<open>String(body.command)\<close> throws, the \<open>catch\<close> swallows the error, and the statement
  that appends the image is never reached.
\<close>

theorem POST_json_image_counterexample:
  "''abc'' \<noteq> [] \<and> \<not> is_multipart (json_request (Some odd_command_body)) \<and>
   field odd_command_body ''image'' = Some (JStr ''data:image/png;base64,AQID'') \<and>
   images (session_of paired ''abc'') = [] \<and>
   images (session_of (fst (POST base64_example nts_example 1700000000000 paired ''abc''
     (json_request (Some odd_command_body)))) ''abc'') = []"
proof -
  have "\<not> command_converts nts_example odd_command_body"
    by (simp add: command_converts_def field_def odd_command_body_def)
  then have "images (post_json nts_example 1700000000000 (json_request (Some odd_command_body))
      (session_of paired ''abc'')) = []"
    by (simp add: post_json_images json_request_simps paired_abc field_def odd_command_body_def)
  then show ?thesis
    by (simp add: POST_json_session json_request_simps paired_abc field_def odd_command_body_def)
qed

subsection \<open>The ids of the images\<close>

lemma digit_nth: "k < 10 \<Longrightarrow> ''0123456789'' ! k \<in> set ''0123456789''"
  by (rule nth_mem) simp

lemma show_nat_digits: "set (show_nat n) \<subseteq> set ''0123456789''"
proof (induction n rule: show_nat.induct)
  case (1 n)
  show ?case
  proof (cases "n < 10")
    case True
    then show ?thesis using digit_nth[of n] by (subst show_nat.simps) simp
  next
    case False
    have "n mod 10 < 10" by simp
    then have "''0123456789'' ! (n mod 10) \<in> set ''0123456789''" by (rule digit_nth)
    with False 1 show ?thesis by (subst show_nat.simps) simp
  qed
qed

lemma show_nat_no_dash: "CHR ''-'' \<notin> set (show_nat n)"
  using show_nat_digits[of n] by auto

lemma show_nat_length: "length (show_nat n) = Suc 0 \<longleftrightarrow> n < 10"
proof (cases "n < 10")
  case True
  then show ?thesis by (subst show_nat.simps) simp
next
  case False
  have "show_nat (n div 10) \<noteq> []" by (subst show_nat.simps) simp
  then have "length (show_nat (n div 10)) \<noteq> 0" by simp
  with False show ?thesis by (subst show_nat.simps) simp
qed

lemma digit_nth_inj:
  assumes "i < 10" "j < 10" "''0123456789'' ! i = ''0123456789'' ! j"
  shows "i = j"
proof -
  have "distinct ''0123456789''" by simp
  moreover have "i < length ''0123456789''" "j < length ''0123456789''" using assms by simp_all
  ultimately show ?thesis using assms(3) by (simp only: nth_eq_iff_index_eq)
qed

lemma show_nat_inj: "show_nat m = show_nat n \<Longrightarrow> m = n"
proof (induction m arbitrary: n rule: show_nat.induct)
  case (1 m)
  show ?case
  proof (cases "m < 10")
    case True
    then have "length (show_nat n) = Suc 0" using 1(2) show_nat_length[of m] by simp
    then have n: "n < 10" by (simp add: show_nat_length)
    have "show_nat m = [''0123456789'' ! m]" using True by (subst show_nat.simps) simp
    moreover have "show_nat n = [''0123456789'' ! n]" using n by (subst show_nat.simps) simp
    ultimately have "''0123456789'' ! m = ''0123456789'' ! n" using 1(2) by simp
    then show ?thesis using True n digit_nth_inj by blast
  next
    case False
    then have "length (show_nat n) \<noteq> Suc 0" using 1(2) show_nat_length[of m] by simp
    then have n: "\<not> n < 10" by (simp add: show_nat_length)
    have "show_nat m = show_nat (m div 10) @ [''0123456789'' ! (m mod 10)]"
      using False by (subst show_nat.simps) simp
    moreover have "show_nat n = show_nat (n div 10) @ [''0123456789'' ! (n mod 10)]"
      using n by (subst show_nat.simps) simp
    ultimately have eq: "show_nat (m div 10) = show_nat (n div 10)"
      "''0123456789'' ! (m mod 10) = ''0123456789'' ! (n mod 10)"
      using 1(2) by simp_all
    from eq(1) have "m div 10 = n div 10" using 1(1) False by blast
    moreover have "m mod 10 = n mod 10"
      using eq(2) digit_nth_inj[of "m mod 10" "n mod 10"] by simp
    ultimately show ?thesis by (metis div_mult_mod_eq)
  qed
qed

lemma id_index_suffix: "id_index (p @ ''-'' @ show_nat n) = show_nat n"
proof -
  have "takeWhile (\<lambda>c. c \<noteq> CHR ''-'') (rev (show_nat n) @ CHR ''-'' # rev p) = rev (show_nat n)"
    using show_nat_no_dash[of n] by (intro takeWhile_append2 [THEN trans]) auto
  then show ?thesis by (simp add: id_index_def)
qed

lemma numbered_distinct:
  assumes "numbered state"
  shows "distinct (map image_id (images state))"
proof -
  have "inj_on show_nat (set [0..<length (images state)])"
    by (rule inj_onI) (rule show_nat_inj)
  then have "distinct (map show_nat [0..<length (images state)])"
    by (simp add: distinct_map)
  then have "distinct (map id_index (map image_id (images state)))"
    using assms by (simp add: numbered_def comp_def)
  then show ?thesis by (simp only: distinct_map)
qed

lemma numbered_default: "numbered default_state"
  by (simp add: numbered_def default_state_def)

lemma numbered_push: "numbered state \<Longrightarrow> numbered (push_image now url state)"
  using id_index_suffix[of "''mobile-'' @ show_int now" "length (images state)"]
  by (simp add: numbered_def push_image_def)

lemma numbered_images:
  "numbered state \<Longrightarrow> images state' = images state \<Longrightarrow> numbered state'"
  by (simp add: numbered_def)

lemma post_multipart_numbered:
  "numbered state \<Longrightarrow> numbered (post_multipart base64 now req state)"
  by (simp add: post_multipart_eq numbered_push split: option.splits)

lemma post_json_numbered:
  assumes "numbered state"
  shows "numbered (post_json nts now req state)"
proof (cases "json_body req")
  case None
  then show ?thesis using assms by (simp add: post_json_malformed)
next
  case (Some body)
  have push: "images (push_image now s state) = images state @ [relayed_image now s state]" for s
    by (simp add: push_image_def relayed_image_def)
  have "images (post_json nts now req state) = images state \<or>
        (\<exists>s. images (post_json nts now req state) = images (push_image now s state))"
    unfolding push post_json_images[OF Some]
    by (auto split: option.splits json.splits)
  then show ?thesis
    using assms numbered_push[OF assms, of now] numbered_images by metis
qed

lemma GET_session: "session_of (fst (GET sessions sessionId)) k = session_of sessions k"
  by (cases "sessionId = []")
    (auto simp: GET_def getOrCreate_eq session_of_def)

lemma step_numbered:
  assumes "\<And>k. numbered (session_of sessions k)"
  shows "numbered (session_of (step base64 nts sessions c) k)"
proof (cases c)
  case (Get sessionId)
  then show ?thesis using assms by (simp add: GET_session)
next
  case (Post now sessionId req)
  show ?thesis
  proof (cases "is_multipart req")
    case True
    then show ?thesis
      using assms Post by (simp add: POST_multipart_session post_multipart_numbered)
  next
    case False
    then show ?thesis
      using assms Post by (simp add: POST_json_session post_json_numbered)
  qed
qed

lemma run_numbered: "numbered (session_of (run base64 nts calls) k)"
proof (induction calls arbitrary: k rule: rev_induct)
  case Nil
  then show ?case by (simp add: run_def session_of_def numbered_default)
next
  case (snoc c calls)
  have "run base64 nts (calls @ [c]) = step base64 nts (run base64 nts calls) c"
    by (simp add: run_def)
  then show ?case using snoc step_numbered by simp
qed

text \<open>
  Claim C9. After any sequence of calls to the relay endpoint, from the empty store, the
  ids of the images of every session are pairwise distinct: an id ends with the position
  of its image, written after the last dash, whatever the time stamps are.
\<close>

theorem image_ids_distinct:
  "distinct (map image_id (images (session_of (run base64 nts calls) sessionId)))"
  using run_numbered by (rule numbered_distinct)

text \<open>
  The theorem for two appends to one session at the same time stamp, one multipart and
  one by a JSON body: the ids end with 0 and with 1.
\<close>

theorem image_ids_distinct_witness:
  "map image_id (images (session_of (run base64_example nts_example
     [Post 1700000000000 ''abc'' png_upload,
      Post 1700000000000 ''abc'' (json_request (Some relay_body))]) ''abc'')) =
     [''mobile-1700000000000-0'', ''mobile-1700000000000-1''] \<and>
   distinct (map image_id (images (session_of (run base64_example nts_example
     [Post 1700000000000 ''abc'' png_upload,
      Post 1700000000000 ''abc'' (json_request (Some relay_body))]) ''abc'')))"
proof -
  have m: "is_multipart png_upload" by (simp add: is_multipart_def png_upload_def)
  have f: "image_file png_upload = Some \<lparr>file_type = ''image/png'', file_bytes = [1, 2, 3]\<rparr>"
    by (simp add: image_file_def png_upload_def)
  have c: "command_converts nts_example relay_body"
    "field relay_body ''image'' = Some (JStr ''data:image/png;base64,AQID'')"
    by (simp_all add: command_converts_def field_def relay_body_def)
  have one: "show_nat (Suc 0) = ''1''" by (simp add: show_nat.simps)
  have e: "session_of Map.empty ''abc'' = default_state" by (simp add: session_of_def)
  have s1: "images (session_of (fst (POST base64_example nts_example 1700000000000 Map.empty
      ''abc'' png_upload)) ''abc'') =
      [\<lparr>image_id = ''mobile-1700000000000-0'', dataUrl = ''data:image/png;base64,AQID'',
        image_product = [], image_expiryDate = []\<rparr>]"
    using m f
    by (simp add: POST_multipart_session post_multipart_eq push_image_def e default_state_def
        show_nat_0 show_stamp base64_example_def)
  have "map image_id (images (session_of (run base64_example nts_example
     [Post 1700000000000 ''abc'' png_upload,
      Post 1700000000000 ''abc'' (json_request (Some relay_body))]) ''abc'')) =
     [''mobile-1700000000000-0'', ''mobile-1700000000000-1'']"
    using c
    by (simp add: run_def POST_json_session json_request_simps post_json_images
        relayed_image_def s1 show_stamp one)
  then show ?thesis
    using image_ids_distinct[of base64_example nts_example
        "[Post 1700000000000 ''abc'' png_upload,
          Post 1700000000000 ''abc'' (json_request (Some relay_body))]" "''abc''"]
    by simp
qed

section \<open>Properties of the extraction client\<close>

lemma indexOf_notin: "c \<notin> set s \<Longrightarrow> indexOf s c = None"
  by (induction s) auto


lemma lastIndexOf_notin: "c \<notin> set s \<Longrightarrow> lastIndexOf s c = None"
  by (simp add: lastIndexOf_def indexOf_notin)



lemma json_slice_no_brace:
  "CHR ''{'' \<notin> set s \<or> CHR ''}'' \<notin> set s \<Longrightarrow> json_slice s = s"
  by (auto simp: json_slice_def indexOf_notin lastIndexOf_notin split: option.splits)


lemma slice_take: "slice s 0 n = take n s"
  by (simp add: slice_def)


lemma re_string_tail_Cons:
  "re_string_tail (c # s) =
     (if c = dquote then Some []
      else if c = backslash
      then (case s of [] \<Rightarrow> None
            | d # ds \<Rightarrow> if is_line_terminator d then None
                       else map_option (\<lambda>r. c # d # r) (re_string_tail ds))
      else map_option (\<lambda>r. c # r) (re_string_tail s))"
  by (cases s) simp_all

lemma re_string_tail_plain: "plain v \<Longrightarrow> re_string_tail (v @ dquote # rest) = Some v"
  by (induction v) (auto simp: re_string_tail_Cons plain_def)

lemma colon_not_space: "\<not> is_space (CHR '':'')" "\<not> is_space dquote"
  by (simp_all add: is_space_def dquote_def)

lemma re_field_at_quoted:
  "plain v \<Longrightarrow> re_field_at name (quoted_field name v @ rest) = Some v"
  using re_string_tail_plain[of v rest]
  by (simp add: re_field_at_def quoted_field_def Let_def colon_not_space)

lemma search_head: "f s = Some r \<Longrightarrow> search f s = Some r"
  by (cases s) simp_all

lemma re_field_at_chars: "re_field_at name s = Some v \<Longrightarrow> dquote \<in> set s \<and> set name \<subseteq> set s"
proof -
  assume "re_field_at name s = Some v"
  then have "take (length ([dquote] @ name @ [dquote])) s = [dquote] @ name @ [dquote]"
    by (simp add: re_field_at_def Let_def split: if_splits)
  then have "set ([dquote] @ name @ [dquote]) \<subseteq> set s"
    by (metis set_take_subset)
  then show ?thesis by auto
qed

lemma search_field_None:
  assumes "dquote \<notin> set s \<or> \<not> set name \<subseteq> set s"
  shows "search (re_field_at name) s = None"
proof -
  have "re_field_at name (drop i s) = None" for i
  proof (cases "re_field_at name (drop i s)")
    case None
    then show ?thesis .
  next
    case (Some v)
    then have "dquote \<in> set (drop i s) \<and> set name \<subseteq> set (drop i s)"
      by (rule re_field_at_chars)
    then have "dquote \<in> set s \<and> set name \<subseteq> set s"
      using set_drop_subset[of i s] by blast
    with assms show ?thesis by blast
  qed
  then show ?thesis by (simp add: search_None)
qed

lemma unescape_plain: "backslash \<notin> set v \<Longrightarrow> unescape_quotes v = v"
  by (induction v rule: unescape_quotes.induct) auto

lemma parse_reply_thrown:
  "JSON_parse (json_slice rawText) = None \<Longrightarrow>
   parse_reply JSON_parse nts rawText = catch_regex rawText \<lparr>product = [], expiryDate = []\<rparr>"
  by (simp add: parse_reply_def try_json_def)

lemma catch_regex_none:
  assumes "search (re_field_at ''product'') rawText = None"
    "search (re_field_at ''expiryDate'') rawText = None"
  shows "catch_regex rawText extracted = extracted"
  using assms by (simp add: catch_regex_def)



lemma re_field_at_not_quote: "c \<noteq> dquote \<Longrightarrow> re_field_at name (c # r) = None"
  by (simp add: re_field_at_def Let_def)

lemma search_skip:
  "dquote \<notin> set pre \<Longrightarrow> search (re_field_at name) (pre @ s) = search (re_field_at name) s"
proof (induction pre)
  case Nil
  then show ?case by simp
next
  case (Cons c pre)
  then have "re_field_at name (c # pre @ s) = None"
    by (intro re_field_at_not_quote) auto
  with Cons show ?case by simp
qed

lemma search_quoted:
  "dquote \<notin> set pre \<Longrightarrow> plain v \<Longrightarrow>
   search (re_field_at name) (pre @ quoted_field name v @ rest) = Some v"
  by (simp add: search_skip search_head re_field_at_quoted)
























lemma example_values:
  "take 120 (trim ''SHARPS CONTAINER 10L'') = ''SHARPS CONTAINER 10L''"
  "coerceIsoDate ''2027-01-01'' = ''2027-01-01''"
  "coerceIsoDate ''06/07/2029'' = ''2029-07-06''"
  by (simp_all add: coerceIsoDate_def trim_def is_space_def is_digit_def is_sep3_def)



subsection \<open>The manual overrides\<close>

lemma re_placeholder_iff: "re_placeholder s \<longleftrightarrow> placeholder_name s"
proof
  assume "re_placeholder s"
  then have "drop 8 s \<noteq> []" "list_all is_digit (drop 8 s)" "take 8 s = ''product_''"
    by (simp_all add: re_placeholder_def)
  moreover have "s = take 8 s @ drop 8 s" by simp
  ultimately show "placeholder_name s"
    unfolding placeholder_name_def by metis
next
  assume "placeholder_name s"
  then obtain digits where "digits \<noteq> []" "list_all is_digit digits" "s = ''product_'' @ digits"
    unfolding placeholder_name_def by blast
  then show "re_placeholder s" by (simp add: re_placeholder_def)
qed

lemma apply_manual_product:
  "product (apply_manual manualProduct manualDate extracted) =
     (case manualProduct of
        Some (FormString s) \<Rightarrow>
          if trim s \<noteq> [] \<and> \<not> placeholder_name (trim s) then take 120 (trim s)
          else product extracted
      | _ \<Rightarrow> product extracted)"
  by (simp add: apply_manual_def Let_def re_placeholder_iff slice_take
      split: option.splits form_value.splits)

lemma apply_manual_expiryDate:
  "expiryDate (apply_manual manualProduct manualDate extracted) =
     (case manualDate of
        Some (FormString s) \<Rightarrow> if trim s \<noteq> [] then coerceIsoDate s else expiryDate extracted
      | _ \<Rightarrow> expiryDate extracted)"
  by (simp add: apply_manual_def Let_def split: option.splits form_value.splits)

text \<open>
  Claim C8, as the code has it. A manual product that is a string, is not blank and,
  once trimmed, is no placeholder name replaces the extracted product: the result is the
  trimmed override cut to 120 characters. Any other manual product leaves the extracted
  product. A manual date that is a string and not blank replaces the extracted date by
  its normalized form; any other manual date leaves the extracted date.
\<close>

theorem apply_manual_overrides:
  "(\<forall>s. manualProduct = Some (FormString s) \<and> trim s \<noteq> [] \<and> \<not> placeholder_name (trim s) \<longrightarrow>
      product (apply_manual manualProduct manualDate extracted) = take 120 (trim s) \<and>
      length (product (apply_manual manualProduct manualDate extracted)) \<le> 120) \<and>
   ((\<forall>s. manualProduct = Some (FormString s) \<longrightarrow> trim s = [] \<or> placeholder_name (trim s)) \<longrightarrow>
      product (apply_manual manualProduct manualDate extracted) = product extracted) \<and>
   (\<forall>s. manualDate = Some (FormString s) \<and> trim s \<noteq> [] \<longrightarrow>
      expiryDate (apply_manual manualProduct manualDate extracted) = coerceIsoDate s) \<and>
   ((\<forall>s. manualDate = Some (FormString s) \<longrightarrow> trim s = []) \<longrightarrow>
      expiryDate (apply_manual manualProduct manualDate extracted) = expiryDate extracted)"
  unfolding apply_manual_product apply_manual_expiryDate
  by (auto split: option.splits form_value.splits)

text \<open>
  The theorem for the overrides \<open>" Oat Milk "\<close> and \<open>06/07/2029\<close>, and for the
  placeholder \<open>product_12\<close> without a manual date.
\<close>

lemma not_placeholder:
  "\<not> placeholder_name '' ''" "\<not> placeholder_name ''Oat Milk''" "placeholder_name ''product_12''"
  unfolding re_placeholder_iff[symmetric]
  by (simp_all add: re_placeholder_def is_digit_def)

lemma trims:
  "trim '' '' = []" "trim '' Oat Milk '' = ''Oat Milk''" "trim ''product_12'' = ''product_12''"
  "trim ''06/07/2029'' = ''06/07/2029''" "trim '' Tea '' = ''Tea''"
  by (simp_all add: trim_def is_space_def)

theorem apply_manual_overrides_witness:
  "trim '' Oat Milk '' \<noteq> [] \<and> \<not> placeholder_name (trim '' Oat Milk '') \<and>
   trim ''06/07/2029'' \<noteq> [] \<and>
   apply_manual (Some (FormString '' Oat Milk '')) (Some (FormString ''06/07/2029''))
     \<lparr>product = ''Milk'', expiryDate = ''2027-01-01''\<rparr> =
     \<lparr>product = ''Oat Milk'', expiryDate = ''2029-07-06''\<rparr> \<and>
   placeholder_name (trim ''product_12'') \<and>
   apply_manual (Some (FormString ''product_12'')) None
     \<lparr>product = ''Milk'', expiryDate = ''2027-01-01''\<rparr> =
     \<lparr>product = ''Milk'', expiryDate = ''2027-01-01''\<rparr>"
proof -
  have "product (apply_manual (Some (FormString '' Oat Milk '')) (Some (FormString ''06/07/2029''))
      \<lparr>product = ''Milk'', expiryDate = ''2027-01-01''\<rparr>) = ''Oat Milk''"
    "expiryDate (apply_manual (Some (FormString '' Oat Milk ''))
      (Some (FormString ''06/07/2029'')) \<lparr>product = ''Milk'', expiryDate = ''2027-01-01''\<rparr>) =
      ''2029-07-06''"
    using apply_manual_overrides[of "Some (FormString '' Oat Milk '')"
        "Some (FormString ''06/07/2029'')" "\<lparr>product = ''Milk'', expiryDate = ''2027-01-01''\<rparr>"]
      not_placeholder
    by (simp_all add: trims example_values)
  moreover have "product (apply_manual (Some (FormString ''product_12'')) None
      \<lparr>product = ''Milk'', expiryDate = ''2027-01-01''\<rparr>) = ''Milk''"
    "expiryDate (apply_manual (Some (FormString ''product_12'')) None
      \<lparr>product = ''Milk'', expiryDate = ''2027-01-01''\<rparr>) = ''2027-01-01''"
    using apply_manual_overrides[of "Some (FormString ''product_12'')" None
        "\<lparr>product = ''Milk'', expiryDate = ''2027-01-01''\<rparr>"]
      not_placeholder
    by (simp_all add: trims)
  ultimately show ?thesis
    using not_placeholder by (simp add: trims AnalyzeResponse.equality)
qed

text \<open>
  Claim C8 as the specification states it says that a non-empty override that is no
  placeholder replaces the product, and that a supplied date override replaces the date.
  An override of one space is non-empty and no placeholder, and it replaces neither: the
  handler tests the trimmed override. And an override with white space around it
  replaces the product by its trimmed form.
\<close>

theorem apply_manual_blank_counterexample:
  "'' '' \<noteq> [] \<and> \<not> placeholder_name '' '' \<and>
   product (apply_manual (Some (FormString '' '')) None
     \<lparr>product = ''Milk'', expiryDate = ''2027-01-01''\<rparr>) = ''Milk'' \<and>
   coerceIsoDate '' '' = [] \<and>
   expiryDate (apply_manual None (Some (FormString '' ''))
     \<lparr>product = ''Milk'', expiryDate = ''2027-01-01''\<rparr>) = ''2027-01-01'' \<and>
   product (apply_manual (Some (FormString '' Tea '')) None
     \<lparr>product = ''Milk'', expiryDate = ''2027-01-01''\<rparr>) = ''Tea''"
proof -
  have "\<not> placeholder_name ''Tea''"
    unfolding re_placeholder_iff[symmetric] by (simp add: re_placeholder_def)
  moreover have "coerceIsoDate '' '' = []"
    by (simp add: coerceIsoDate_def trims)
  ultimately show ?thesis
    using not_placeholder(1)
    by (simp add: apply_manual_product apply_manual_expiryDate trims)
qed

subsection \<open>The length of the product\<close>

lemma long_reply_no_brace: "json_slice long_reply = long_reply"
  by (rule json_slice_no_brace) (simp add: long_reply_def quoted_field_def dquote_def)

lemma long_reply_product:
  "search (re_field_at ''product'') long_reply = Some (replicate 121 (CHR ''A''))"
proof -
  have "plain (replicate 121 (CHR ''A''))"
    by (simp add: plain_def dquote_def backslash_def)
  then show ?thesis
    using search_quoted[of "[]" "replicate 121 (CHR ''A'')" "''product''" "[]"]
    by (simp add: long_reply_def)
qed

lemma long_reply_expiryDate: "search (re_field_at ''expiryDate'') long_reply = None"
proof (rule search_field_None)
  have "CHR ''e'' \<notin> set long_reply"
    by (simp add: long_reply_def quoted_field_def dquote_def)
  then show "dquote \<notin> set long_reply \<or> \<not> set ''expiryDate'' \<subseteq> set long_reply"
    by auto
qed

lemma long_reply_parsed:
  assumes "JSON_parse long_reply = None"
  shows "parse_reply JSON_parse nts long_reply =
           \<lparr>product = replicate 121 (CHR ''A''), expiryDate = []\<rparr>"
proof -
  have "unescape_quotes (replicate 121 (CHR ''A'')) = replicate 121 (CHR ''A'')"
    by (rule unescape_plain) (simp add: backslash_def)
  then show ?thesis
    using assms
    by (simp add: parse_reply_thrown long_reply_no_brace catch_regex_def long_reply_product
        long_reply_expiryDate)
qed

text \<open>
  Claim C4 says that the product of a successful request has at most 120 characters.
  The statement after \<open>JSON.parse\<close> and the manual override cut the product with
  \<open>slice(0, 120)\<close>; the fallback pattern does not. For the reply \<open>"product":"A...A"\<close>
  with 121 letters, which is no JSON, and without manual overrides, the handler returns
  the 121 letters.
\<close>

theorem long_product_not_truncated:
  "JSON_parse long_reply = None \<longrightarrow>
     POST_analyze JSON_parse nts (Some ''key'') (\<lambda>upload. ReplyText long_reply) png_upload =
       Json200 \<lparr>product = replicate 121 (CHR ''A''), expiryDate = []\<rparr> \<and>
     \<not> length (replicate 121 (CHR ''A'')) \<le> 120"
proof
  assume a: "JSON_parse long_reply = None"
  have "formData png_upload = Some [''image'' \<mapsto> FormFile \<lparr>file_type = ''image/png'',
      file_bytes = [1, 2, 3]\<rparr>]"
    by (simp add: png_upload_def)
  then have "POST_analyze JSON_parse nts (Some ''key'') (\<lambda>upload. ReplyText long_reply)
      png_upload =
    Json200 (apply_manual None None (parse_reply JSON_parse nts long_reply))"
    by (simp add: POST_analyze_def)
  then show "POST_analyze JSON_parse nts (Some ''key'') (\<lambda>upload. ReplyText long_reply)
      png_upload =
       Json200 \<lparr>product = replicate 121 (CHR ''A''), expiryDate = []\<rparr> \<and>
     \<not> length (replicate 121 (CHR ''A'')) \<le> 120"
    using long_reply_parsed[of JSON_parse nts] a by (simp add: apply_manual_def)
qed

text \<open>The theorem with a parser that rejects the reply.\<close>

theorem long_product_not_truncated_witness:
  "(\<lambda>s. None :: json option) long_reply = None \<and>
   POST_analyze (\<lambda>s. None) nts_example (Some ''key'') (\<lambda>upload. ReplyText long_reply)
     png_upload =
     Json200 \<lparr>product = replicate 121 (CHR ''A''), expiryDate = []\<rparr> \<and>
   length (replicate 121 (CHR ''A'')) = 121"
  using long_product_not_truncated[of "\<lambda>s. None" nts_example] by simp

end
